theory Spec2Isabelle
  imports Main "HOL-Library.Word"
begin

section \<open>Outcomes of a call\<close>

text \<open>
  A call of one of the functions of \<^verbatim>\<open>obj.h\<close> returns, throws a C++ exception, aborts
  on a failed \<^verbatim>\<open>assert\<close>, or runs into undefined behaviour (an unchecked
  \<^verbatim>\<open>operator[]\<close> outside its vector). The three are kept apart. A call that never
  returns is the value \<open>None\<close> of the enclosing option type.
\<close>

datatype exn =
    Runtime_error string  \<comment> \<open>\<^verbatim>\<open>std::runtime_error\<close> with its message\<close>
  | Stof_error            \<comment> \<open>\<^verbatim>\<open>std::invalid_argument\<close> or \<^verbatim>\<open>std::out_of_range\<close> of \<^verbatim>\<open>std::stof\<close>\<close>
  | Length_error          \<comment> \<open>\<^verbatim>\<open>std::length_error\<close> of \<^verbatim>\<open>resize\<close>\<close>
  | Assertion_failure     \<comment> \<open>a failed \<^verbatim>\<open>assert\<close>\<close>

datatype ub =
    Out_of_bounds_read    \<comment> \<open>\<^verbatim>\<open>v[i]\<close> with \<open>i\<close> outside \<open>v\<close>\<close>
  | Float_to_int          \<comment> \<open>conversion of a float that no \<^verbatim>\<open>int\<close> holds\<close>
  | Signed_overflow       \<comment> \<open>\<^verbatim>\<open>int\<close> arithmetic beyond \<^verbatim>\<open>INT_MAX\<close>\<close>

datatype 'r outcome = Returns 'r | Throws exn | Undefined ub

section \<open>Input streams\<close>

text \<open>
  \<^verbatim>\<open>std::ifstream\<close> and \<^verbatim>\<open>std::istringstream\<close>: the characters not read yet and the
  two state bits the code can observe.
\<close>

record istream =
  unread :: string
  eofbit :: bool
  failbit :: bool

definition good :: "istream \<Rightarrow> bool" where
  "good s = (\<not> eofbit s \<and> \<not> failbit s)"

definition open_stream :: "string \<Rightarrow> istream" where
  "open_stream s = \<lparr>unread = s, eofbit = False, failbit = False\<rparr>"

text \<open>\<^verbatim>\<open>ssline.str(s)\<close> replaces the buffer and keeps the state bits; \<^verbatim>\<open>ssline.clear()\<close>
  resets the bits and keeps the buffer.\<close>

definition str :: "istream \<Rightarrow> string \<Rightarrow> istream" where
  "str s l = s\<lparr>unread := l\<rparr>"

definition clear :: "istream \<Rightarrow> istream" where
  "clear s = s\<lparr>eofbit := False, failbit := False\<rparr>"

definition newline :: char where
  "newline = CHR 0x0A"

definition backslash :: string where
  "backslash = [CHR 0x5C]"

definition isspace :: "char \<Rightarrow> bool" where
  "isspace c = (c = CHR '' '' \<or> c = CHR 0x09 \<or> c = CHR 0x0A \<or> c = CHR 0x0B
                \<or> c = CHR 0x0C \<or> c = CHR 0x0D)"

text \<open>The characters of the next line, what follows its newline, and whether the end
  of the input was reached before a newline.\<close>

fun take_line :: "string \<Rightarrow> string \<times> string \<times> bool" where
  "take_line [] = ([], [], True)"
| "take_line (c # cs) =
     (if c = newline then ([], cs, False)
      else (case take_line cs of (l, r, e) \<Rightarrow> (c # l, r, e)))"

text \<open>
  \<^verbatim>\<open>std::getline(file, sline)\<close>. On a stream that is not good the sentry fails: the
  failbit is set and \<^verbatim>\<open>sline\<close> is left as it was. Otherwise the line is stored; reaching
  the end of the input sets the eofbit, and the failbit too when nothing was extracted.
\<close>

definition getline :: "istream \<Rightarrow> string \<Rightarrow> istream \<times> string" where
  "getline f l =
     (if \<not> good f then (f\<lparr>failbit := True\<rparr>, l)
      else (case take_line (unread f) of
              (l', r, e) \<Rightarrow> (\<lparr>unread = r, eofbit = e, failbit = (e \<and> l' = [])\<rparr>, l')))"

text \<open>The sentry of a formatted extraction: fails on a stream that is not good, skips
  white space, fails at the end of the input.\<close>

definition sentry :: "istream \<Rightarrow> istream \<times> bool" where
  "sentry s =
     (if \<not> good s then (s\<lparr>failbit := True\<rparr>, False)
      else (let r = dropWhile isspace (unread s) in
            if r = [] then (\<lparr>unread = [], eofbit = True, failbit = True\<rparr>, False)
            else (s\<lparr>unread := r\<rparr>, True)))"

text \<open>\<^verbatim>\<open>ss >> str\<close> for a \<^verbatim>\<open>std::string\<close>: when the sentry fails the string keeps its
  old value.\<close>

definition extract_string :: "istream \<Rightarrow> string \<Rightarrow> istream \<times> string" where
  "extract_string s old =
     (case sentry s of
        (s', False) \<Rightarrow> (s', old)
      | (s', True) \<Rightarrow>
          (let r = dropWhile (\<lambda>c. \<not> isspace c) (unread s') in
           (\<lparr>unread = r, eofbit = (r = []), failbit = False\<rparr>,
            takeWhile (\<lambda>c. \<not> isspace c) (unread s'))))"

text \<open>
  \<^verbatim>\<open>ss >> x\<close> for a number. The conversion itself (\<^verbatim>\<open>std::num_get\<close>) is a parameter
  \<open>get\<close>: from the input at a non-space character it gives the value stored, whether
  the conversion succeeded, and the input left. When the sentry fails \<open>x\<close> keeps its old
  value; when the conversion fails \<open>get\<close> says what is stored (zero since C++11).
\<close>

definition extract_num :: "(string \<Rightarrow> 'v \<times> bool \<times> string) \<Rightarrow> istream \<Rightarrow> 'v \<Rightarrow> istream \<times> 'v" where
  "extract_num get s old =
     (case sentry s of
        (s', False) \<Rightarrow> (s', old)
      | (s', True) \<Rightarrow>
          (case get (unread s') of
             (v, ok, r) \<Rightarrow> (\<lparr>unread = r, eofbit = (r = []), failbit = \<not> ok\<rparr>, v)))"

section \<open>The numeric library\<close>

text \<open>
  The number conversions of the C++ library that \<^verbatim>\<open>obj.h\<close> calls, as parameters:
  \<open>'a\<close> is the template parameter \<^verbatim>\<open>T\<close>, \<open>'d\<close> is \<^verbatim>\<open>double\<close>, \<open>'f\<close> is \<^verbatim>\<open>float\<close>.
\<close>

record ('a, 'd, 'f) numlib =
  get_double :: "string \<Rightarrow> 'd \<times> bool \<times> string"     \<comment> \<open>\<^verbatim>\<open>ss >> double\<close>\<close>
  get_T :: "string \<Rightarrow> 'a \<times> bool \<times> string"          \<comment> \<open>\<^verbatim>\<open>ss >> T\<close>\<close>
  get_uint :: "string \<Rightarrow> 32 word \<times> bool \<times> string"  \<comment> \<open>\<^verbatim>\<open>ss >> unsigned int\<close>\<close>
  stof :: "string \<Rightarrow> 'f option"                      \<comment> \<open>\<^verbatim>\<open>std::stof\<close>, \<open>None\<close> when it throws\<close>
  double_zero :: 'd                                   \<comment> \<open>\<^verbatim>\<open>0.0\<close>\<close>
  double_one :: 'd                                    \<comment> \<open>\<^verbatim>\<open>1.0\<close>\<close>
  T_zero :: 'a                                        \<comment> \<open>\<^verbatim>\<open>T()\<close>\<close>
  T_one :: 'a                                         \<comment> \<open>\<^verbatim>\<open>T(1)\<close>\<close>
  double_to_T :: "'d \<Rightarrow> 'a"
  float_to_T :: "'f \<Rightarrow> 'a"
  float_to_int :: "'f \<Rightarrow> int option"                 \<comment> \<open>\<open>None\<close> when the value fits no \<^verbatim>\<open>int\<close>\<close>
  put_T :: "'a \<Rightarrow> string"                             \<comment> \<open>\<^verbatim>\<open>fout << T\<close>\<close>
  put_uint :: "32 word \<Rightarrow> string"                     \<comment> \<open>\<^verbatim>\<open>fout << unsigned int\<close>\<close>
  put_int :: "int \<Rightarrow> string"                          \<comment> \<open>\<^verbatim>\<open>fout << int\<close>\<close>

type_synonym 'a vec3 = "'a \<times> 'a \<times> 'a"

section \<open>Reading: the state of the record scan\<close>

text \<open>The struct \<^verbatim>\<open>ToParse\<close>; \<open>seen_body\<close> is its field \<^verbatim>\<open>curv\<close> in the curve reader
  and \<^verbatim>\<open>surf\<close> in the surface reader.\<close>

record ToParse =
  seen_deg :: bool
  seen_cstype :: bool
  seen_body :: bool
  seen_parm :: bool

text \<open>The local variables that both readers declare, under the names of the source.\<close>

record 'a scan =
  ifile :: istream   \<comment> \<open>the variable \<^verbatim>\<open>file\<close>\<close>
  sline :: string
  ssline :: istream
  start :: string
  token :: string
  ctrl_pts_buf :: "'a vec3 list"
  weights_buf :: "'a list"
  indices :: "int list"
  parsed :: ToParse
  rational :: bool

record 'a curve_scan = "'a scan" +
  temp_knots :: "'a list"
  deg :: "32 word"

record 'a surf_scan = "'a scan" +
  temp_uknots :: "'a list"
  temp_vknots :: "'a list"
  deg_u :: "32 word"
  deg_v :: "32 word"


section \<open>Reading: the record handlers\<close>

text \<open>
  The token loop that the readers run on the rest of a \<^verbatim>\<open>curv\<close>, \<^verbatim>\<open>surf\<close> and
  \<^verbatim>\<open>parm\<close> record:
  \<^verbatim>\<open>
  while (ssline >> token) {
      if (token == "\\") { ssline.clear(); getline(file, sline); ssline.str(sline); }
      else { dest.push_back(std::stof(token)); }
  }
  \<close>
  The destination differs from one copy of the loop to the other and is the parameter
  \<open>push\<close>. The loop need not end: at the end of the file \<^verbatim>\<open>getline\<close> leaves
  \<^verbatim>\<open>sline\<close> as it was, and a line that ends in the continuation marker is then read
  again and again.
\<close>

partial_function (option) token_loop ::
  "(string \<Rightarrow> 'f option) \<Rightarrow> ('f \<Rightarrow> ('a, 'z) scan_scheme \<Rightarrow> ('a, 'z) scan_scheme outcome)
   \<Rightarrow> ('a, 'z) scan_scheme \<Rightarrow> ('a, 'z) scan_scheme outcome option" where
  "token_loop stof' push st =
     (case extract_string (ssline st) (token st) of
        (ss, tok) \<Rightarrow>
          if failbit ss then Some (Returns (st\<lparr>ssline := ss, token := tok\<rparr>))
          else if tok = backslash then
            (case getline (ifile st) (sline st) of
               (f, l) \<Rightarrow>
                 token_loop stof' push
                   (st\<lparr>ssline := str (clear ss) l, token := tok, ifile := f, sline := l\<rparr>))
          else
            (case stof' tok of
               None \<Rightarrow> Some (Throws Stof_error)
             | Some v \<Rightarrow>
                 (case push v (st\<lparr>ssline := ss, token := tok\<rparr>) of
                    Returns st' \<Rightarrow> token_loop stof' push st'
                  | Throws e \<Rightarrow> Some (Throws e)
                  | Undefined u \<Rightarrow> Some (Undefined u))))"

text \<open>\<^verbatim>\<open>indices.push_back(std::stof(token))\<close>: the float becomes an \<^verbatim>\<open>int\<close>.\<close>

definition push_index ::
  "('a, 'd, 'f) numlib \<Rightarrow> 'f \<Rightarrow> ('a, 'z) scan_scheme \<Rightarrow> ('a, 'z) scan_scheme outcome" where
  "push_index lib v st =
     (case float_to_int lib v of
        None \<Rightarrow> Undefined Float_to_int
      | Some i \<Rightarrow> Returns (st\<lparr>indices := indices st @ [i]\<rparr>))"

text \<open>\<^verbatim>\<open>temp_knots.push_back(std::stof(token))\<close>: the float becomes a \<^verbatim>\<open>T\<close>.\<close>

definition push_knot ::
  "('a, 'd, 'f) numlib \<Rightarrow> 'f \<Rightarrow> 'a curve_scan \<Rightarrow> 'a curve_scan outcome" where
  "push_knot lib v st = Returns (st\<lparr>temp_knots := temp_knots st @ [float_to_T lib v]\<rparr>)"

text \<open>
  The \<^verbatim>\<open>v\<close> record, the same in both readers:
  \<^verbatim>\<open>
  four_coords.resize(4, 0.0); four_coords[3] = 1.0;
  int index = 0;
  while (ssline && index <= 3) { ssline >> four_coords[index++]; }
  \<close>
\<close>

function read_coords ::
  "(string \<Rightarrow> 'd \<times> bool \<times> string) \<Rightarrow> istream \<Rightarrow> 'd list \<Rightarrow> nat \<Rightarrow> istream \<times> 'd list" where
  "read_coords get ss four_coords index =
     (if \<not> failbit ss \<and> index \<le> 3 then
        (case extract_num get ss (four_coords ! index) of
           (ss', x) \<Rightarrow> read_coords get ss' (four_coords[index := x]) (index + 1))
      else (ss, four_coords))"
  by pat_completeness auto
termination
  by (relation "measure (\<lambda>(get, ss, four_coords, index). 4 - index)") auto

declare read_coords.simps [simp del]

definition read_v :: "('a, 'd, 'f) numlib \<Rightarrow> ('a, 'z) scan_scheme \<Rightarrow> ('a, 'z) scan_scheme" where
  "read_v lib st =
     (case read_coords (get_double lib) (ssline st)
             [double_zero lib, double_zero lib, double_zero lib, double_one lib] 0 of
        (ss, four_coords) \<Rightarrow>
          st\<lparr>ssline := ss,
             ctrl_pts_buf := ctrl_pts_buf st @
               [(double_to_T lib (four_coords ! 0), double_to_T lib (four_coords ! 1),
                 double_to_T lib (four_coords ! 2))],
             weights_buf := weights_buf st @ [double_to_T lib (four_coords ! 3)]\<rparr>)"

text \<open>The \<^verbatim>\<open>cstype\<close> record, the same in both readers.\<close>

definition read_cstype :: "('a, 'z) scan_scheme \<Rightarrow> ('a, 'z) scan_scheme" where
  "read_cstype st =
     (case extract_string (ssline st) [] of
        (ss1, token1) \<Rightarrow>
          if token1 = ''bspline'' then
            st\<lparr>ssline := ss1, rational := False, parsed := (parsed st)\<lparr>seen_cstype := True\<rparr>\<rparr>
          else if token1 = ''rat'' then
            (case extract_string ss1 [] of
               (ss2, token2) \<Rightarrow>
                 if token2 = ''bspline'' then
                   st\<lparr>ssline := ss2, rational := True,
                      parsed := (parsed st)\<lparr>seen_cstype := True\<rparr>\<rparr>
                 else st\<lparr>ssline := ss2\<rparr>)
          else st\<lparr>ssline := ss1\<rparr>)"

text \<open>What a statement that can throw or be undefined hands to the statements after it.\<close>

definition and_then :: "'r outcome option \<Rightarrow> ('r \<Rightarrow> 's outcome option) \<Rightarrow> 's outcome option" where
  "and_then m k =
     (case m of
        None \<Rightarrow> None
      | Some (Returns r) \<Rightarrow> k r
      | Some (Throws e) \<Rightarrow> Some (Throws e)
      | Some (Undefined u) \<Rightarrow> Some (Undefined u))"

datatype control = Continue | Break

section \<open>Reading a curve\<close>

text \<open>The branches of the scan loop of \<^verbatim>\<open>internal::curveReadOBJ\<close> after
  \<^verbatim>\<open>ssline >> start\<close>. The bounds \<^verbatim>\<open>knot_min\<close> and \<^verbatim>\<open>knot_max\<close> are extracted and never
  used.\<close>

definition curve_record ::
  "('a, 'd, 'f) numlib \<Rightarrow> 'a curve_scan \<Rightarrow> ('a curve_scan \<times> control) outcome option" where
  "curve_record lib st =
     (if start st = ''v'' then Some (Returns (read_v lib st, Continue))
      else if start st = ''cstype'' then Some (Returns (read_cstype st, Continue))
      else if start st = ''deg'' then
        (case extract_num (get_uint lib) (ssline st) (deg st) of
           (ss, d) \<Rightarrow>
             Some (Returns (st\<lparr>ssline := ss, parsed := (parsed st)\<lparr>seen_deg := True\<rparr>,
                               deg := d\<rparr>, Continue)))
      else if start st = ''curv'' then
        (case extract_num (get_T lib) (ssline st) (T_zero lib) of
           (ss1, knot_min) \<Rightarrow>
             (case extract_num (get_T lib) ss1 (T_one lib) of
                (ss2, knot_max) \<Rightarrow>
                  and_then (token_loop (stof lib) (push_index lib) (st\<lparr>ssline := ss2\<rparr>))
                    (\<lambda>st'. Some (Returns (st'\<lparr>parsed := (parsed st')\<lparr>seen_body := True\<rparr>\<rparr>,
                                           Continue)))))
      else if start st = ''parm'' then
        (case extract_string (ssline st) (start st) of
           (ss, s) \<Rightarrow>
             and_then
               (if s = ''u'' then
                  token_loop (stof lib) (push_knot lib) (st\<lparr>ssline := ss, start := s\<rparr>)
                else Some (Returns (st\<lparr>ssline := ss, start := s\<rparr>)))
               (\<lambda>st'. Some (Returns (st'\<lparr>parsed := (parsed st')\<lparr>seen_parm := True\<rparr>\<rparr>,
                                      Continue))))
      else if start st = ''end'' then Some (Returns (st, Break))
      else Some (Returns (st, Continue)))"

text \<open>
  The scan loop of \<^verbatim>\<open>internal::curveReadOBJ\<close>:
  \<^verbatim>\<open>
  while (std::getline(file, sline)) {
      if (sline.size() == 0) { continue; }
      ssline.str(sline);
      ssline >> start;
      ...
      ssline.clear();
  }
  \<close>
\<close>

partial_function (option) curve_scan_loop ::
  "('a, 'd, 'f) numlib \<Rightarrow> 'a curve_scan \<Rightarrow> 'a curve_scan outcome option" where
  "curve_scan_loop lib st =
     (case getline (ifile st) (sline st) of
        (f, l) \<Rightarrow>
          if failbit f then Some (Returns (st\<lparr>ifile := f, sline := l\<rparr>))
          else if l = [] then curve_scan_loop lib (st\<lparr>ifile := f, sline := l\<rparr>)
          else
            (case extract_string (str (ssline st) l) (start st) of
               (ss, s) \<Rightarrow>
                 (case curve_record lib (st\<lparr>ifile := f, sline := l, ssline := ss, start := s\<rparr>) of
                    None \<Rightarrow> None
                  | Some (Returns (st', Break)) \<Rightarrow> Some (Returns st')
                  | Some (Returns (st', Continue)) \<Rightarrow>
                      curve_scan_loop lib (st'\<lparr>ssline := clear (ssline st')\<rparr>)
                  | Some (Throws e) \<Rightarrow> Some (Throws e)
                  | Some (Undefined u) \<Rightarrow> Some (Undefined u))))"


text \<open>The check after the scan, the same in both readers but for the keyword \<^verbatim>\<open>curv\<close>
  or \<^verbatim>\<open>surf\<close>: the exception thrown, if any.\<close>

definition quoted :: "string \<Rightarrow> string" where
  "quoted s = [CHR 0x27] @ s @ [CHR 0x27]"

definition required_check :: "string \<Rightarrow> ToParse \<Rightarrow> exn option" where
  "required_check body p =
     (if \<not> seen_cstype p then
        Some (Runtime_error
               (quoted ''cstype bspline / cstype rat bspline'' @ '' line missing in file''))
      else if \<not> seen_deg p then
        Some (Runtime_error (quoted ''deg'' @ '' line missing/incomplete in file''))
      else if \<not> seen_body p then
        Some (Runtime_error (quoted body @ '' line missing/incomplete in file''))
      else if \<not> seen_parm p then
        Some (Runtime_error (quoted ''parm'' @ '' line missing/incomplete in file''))
      else None)"

text \<open>
  The loop that fills the curve:
  \<^verbatim>\<open>
  for (int i = 0; i < num_cp; ++i) {
      assert(i < ctrlPts.size());
      ctrlPts[i] = ctrl_pts_buf[indices[num] - 1];
      weights[i] = weights_buf[indices[num] - 1];
      ++num;
  }
  \<close>
  The three reads use \<^verbatim>\<open>operator[]\<close>, which checks nothing.
\<close>

function curve_fill ::
  "'a vec3 list \<Rightarrow> 'a list \<Rightarrow> int list \<Rightarrow> int \<Rightarrow> int \<Rightarrow> nat \<Rightarrow> 'a vec3 list \<Rightarrow> 'a list
   \<Rightarrow> ('a vec3 list \<times> 'a list) outcome" where
  "curve_fill pool wpool idx num_cp i num ctrlPts weights =
     (if i < num_cp then
        if \<not> (0 \<le> i \<and> nat i < length ctrlPts) then Throws Assertion_failure
        else if \<not> num < length idx then Undefined Out_of_bounds_read
        else if \<not> (0 \<le> idx ! num - 1 \<and> nat (idx ! num - 1) < length pool) then
          Undefined Out_of_bounds_read
        else if \<not> nat (idx ! num - 1) < length wpool then Undefined Out_of_bounds_read
        else curve_fill pool wpool idx num_cp (i + 1) (num + 1)
               (ctrlPts[nat i := pool ! nat (idx ! num - 1)])
               (weights[nat i := wpool ! nat (idx ! num - 1)])
      else Returns (ctrlPts, weights))"
  by pat_completeness auto
termination
  by (relation "measure (\<lambda>(pool, wpool, idx, num_cp, i, num, ctrlPts, weights). nat (num_cp - i))")
     auto

declare curve_fill.simps [simp del]

text \<open>What \<^verbatim>\<open>internal::curveReadOBJ\<close> leaves in its reference parameters.\<close>

record 'a curve_out =
  c_deg :: "32 word"
  c_knots :: "'a list"
  c_ctrlPts :: "'a vec3 list"
  c_weights :: "'a list"
  c_rational :: bool

text \<open>
  The part of \<^verbatim>\<open>internal::curveReadOBJ\<close> after the scan. In
  \<^verbatim>\<open>int num_cp = num_knots - deg - 1\<close> the degree is an \<^verbatim>\<open>unsigned int\<close>, so the
  subtraction is done modulo \<open>2^32\<close> and the result read as a signed number. A negative
  \<^verbatim>\<open>num_cp\<close> reaches \<^verbatim>\<open>resize\<close> as a size beyond \<^verbatim>\<open>max_size()\<close>.
\<close>

definition curve_build :: "('a, 'd, 'f) numlib \<Rightarrow> 'a curve_scan \<Rightarrow> 'a curve_out outcome" where
  "curve_build lib st =
     (case required_check ''curv'' (parsed st) of
        Some e \<Rightarrow> Throws e
      | None \<Rightarrow>
          (let num_knots = (word_of_nat (length (temp_knots st)) :: 32 word);
               num_cp = sint (num_knots - deg st - 1)
           in if num_cp < 0 then Throws Length_error
              else
                (case curve_fill (ctrl_pts_buf st) (weights_buf st) (indices st) num_cp 0 0
                        (replicate (nat num_cp) (T_zero lib, T_zero lib, T_zero lib))
                        (replicate (nat num_cp) (T_zero lib)) of
                   Returns (ctrlPts, weights) \<Rightarrow>
                     Returns \<lparr>c_deg = deg st, c_knots = temp_knots st, c_ctrlPts = ctrlPts,
                              c_weights = weights, c_rational = rational st\<rparr>
                 | Throws e \<Rightarrow> Throws e
                 | Undefined u \<Rightarrow> Undefined u)))"

text \<open>
  \<^verbatim>\<open>internal::curveReadOBJ\<close>. \<open>contents\<close> is what the file system holds under
  \<open>filename\<close>, \<open>None\<close> when the file cannot be opened. \<open>deg0\<close> and \<open>rational0\<close> are the
  values the caller's variables hold at the call. The local \<^verbatim>\<open>ToParse parsed;\<close> has no
  initialiser, so its four flags start with whatever the stack holds: \<open>garbage\<close>.
\<close>

definition curve_init :: "ToParse \<Rightarrow> string \<Rightarrow> 32 word \<Rightarrow> bool \<Rightarrow> 'a curve_scan" where
  "curve_init garbage c deg0 rational0 =
     \<lparr>ifile = open_stream c, sline = [], ssline = open_stream [], start = [], token = [],
      ctrl_pts_buf = [], weights_buf = [], indices = [], parsed = garbage,
      rational = rational0, temp_knots = [], deg = deg0\<rparr>"

definition curveReadOBJ ::
  "('a, 'd, 'f) numlib \<Rightarrow> ToParse \<Rightarrow> string \<Rightarrow> string option \<Rightarrow> 32 word \<Rightarrow> bool
   \<Rightarrow> 'a curve_out outcome option" where
  "curveReadOBJ lib garbage filename contents deg0 rational0 =
     (case contents of
        None \<Rightarrow> Some (Throws (Runtime_error (''File not found: '' @ filename)))
      | Some c \<Rightarrow>
          and_then (curve_scan_loop lib (curve_init garbage c deg0 rational0))
            (\<lambda>st. Some (curve_build lib st)))"

section \<open>Reading a surface\<close>

text \<open>
  Modelled from the spec: the class \<^verbatim>\<open>array2\<close> of \<^verbatim>\<open>util/array2.h\<close>, which is not among
  the sources. The spec describes it as a 2D-grid container with \<^verbatim>\<open>resize(rows, cols)\<close>,
  \<^verbatim>\<open>(i, j)\<close> element access, \<^verbatim>\<open>rows()\<close> and \<^verbatim>\<open>cols()\<close>, stored row-major. An access
  outside the grid has no value.
\<close>

record 'e array2 =
  rows :: nat
  cols :: nat
  cells :: "'e list"

definition array2_resize :: "nat \<Rightarrow> nat \<Rightarrow> 'e \<Rightarrow> 'e array2" where
  "array2_resize r c v = \<lparr>rows = r, cols = c, cells = replicate (r * c) v\<rparr>"

definition array2_at :: "'e array2 \<Rightarrow> nat \<Rightarrow> nat \<Rightarrow> 'e option" where
  "array2_at a i j =
     (if i < rows a \<and> j < cols a \<and> i * cols a + j < length (cells a)
      then Some (cells a ! (i * cols a + j)) else None)"

definition array2_set :: "'e array2 \<Rightarrow> nat \<Rightarrow> nat \<Rightarrow> 'e \<Rightarrow> 'e array2" where
  "array2_set a i j v = a\<lparr>cells := (cells a)[i * cols a + j := v]\<rparr>"

definition push_uknot ::
  "('a, 'd, 'f) numlib \<Rightarrow> 'f \<Rightarrow> 'a surf_scan \<Rightarrow> 'a surf_scan outcome" where
  "push_uknot lib v st = Returns (st\<lparr>temp_uknots := temp_uknots st @ [float_to_T lib v]\<rparr>)"

definition push_vknot ::
  "('a, 'd, 'f) numlib \<Rightarrow> 'f \<Rightarrow> 'a surf_scan \<Rightarrow> 'a surf_scan outcome" where
  "push_vknot lib v st = Returns (st\<lparr>temp_vknots := temp_vknots st @ [float_to_T lib v]\<rparr>)"

text \<open>The branches of the scan loop of \<^verbatim>\<open>internal::surfaceReadOBJ\<close>. The four bounds
  of the \<^verbatim>\<open>surf\<close> record are extracted and never used.\<close>

definition surf_record ::
  "('a, 'd, 'f) numlib \<Rightarrow> 'a surf_scan \<Rightarrow> ('a surf_scan \<times> control) outcome option" where
  "surf_record lib st =
     (if start st = ''v'' then Some (Returns (read_v lib st, Continue))
      else if start st = ''cstype'' then Some (Returns (read_cstype st, Continue))
      else if start st = ''deg'' then
        (case extract_num (get_uint lib) (ssline st) (deg_u st) of
           (ss1, du) \<Rightarrow>
             (case extract_num (get_uint lib) ss1 (deg_v st) of
                (ss2, dv) \<Rightarrow>
                  Some (Returns (st\<lparr>ssline := ss2, parsed := (parsed st)\<lparr>seen_deg := True\<rparr>,
                                    deg_u := du, deg_v := dv\<rparr>, Continue))))
      else if start st = ''surf'' then
        (case extract_num (get_T lib) (ssline st) (T_zero lib) of
           (ss1, uknot_min) \<Rightarrow>
             (case extract_num (get_T lib) ss1 (T_one lib) of
                (ss2, uknot_max) \<Rightarrow>
                  (case extract_num (get_T lib) ss2 (T_zero lib) of
                     (ss3, vknot_min) \<Rightarrow>
                       (case extract_num (get_T lib) ss3 (T_one lib) of
                          (ss4, vknot_max) \<Rightarrow>
                            and_then
                              (token_loop (stof lib) (push_index lib) (st\<lparr>ssline := ss4\<rparr>))
                              (\<lambda>st'. Some (Returns
                                 (st'\<lparr>parsed := (parsed st')\<lparr>seen_body := True\<rparr>\<rparr>,
                                  Continue)))))))
      else if start st = ''parm'' then
        (case extract_string (ssline st) (start st) of
           (ss, s) \<Rightarrow>
             and_then
               (if s = ''u'' then
                  token_loop (stof lib) (push_uknot lib) (st\<lparr>ssline := ss, start := s\<rparr>)
                else if s = ''v'' then
                  token_loop (stof lib) (push_vknot lib) (st\<lparr>ssline := ss, start := s\<rparr>)
                else Some (Returns (st\<lparr>ssline := ss, start := s\<rparr>)))
               (\<lambda>st'. Some (Returns (st'\<lparr>parsed := (parsed st')\<lparr>seen_parm := True\<rparr>\<rparr>,
                                      Continue))))
      else if start st = ''end'' then Some (Returns (st, Break))
      else Some (Returns (st, Continue)))"

text \<open>
  The scan loop of \<^verbatim>\<open>internal::surfaceReadOBJ\<close>, which leaves at an empty line:
  \<^verbatim>\<open>
  while (std::getline(file, sline)) {
      if (sline.size() == 0) { break; }
      ...
  \<close>
\<close>

partial_function (option) surf_scan_loop ::
  "('a, 'd, 'f) numlib \<Rightarrow> 'a surf_scan \<Rightarrow> 'a surf_scan outcome option" where
  "surf_scan_loop lib st =
     (case getline (ifile st) (sline st) of
        (f, l) \<Rightarrow>
          if failbit f then Some (Returns (st\<lparr>ifile := f, sline := l\<rparr>))
          else if l = [] then Some (Returns (st\<lparr>ifile := f, sline := l\<rparr>))
          else
            (case extract_string (str (ssline st) l) (start st) of
               (ss, s) \<Rightarrow>
                 (case surf_record lib (st\<lparr>ifile := f, sline := l, ssline := ss, start := s\<rparr>) of
                    None \<Rightarrow> None
                  | Some (Returns (st', Break)) \<Rightarrow> Some (Returns st')
                  | Some (Returns (st', Continue)) \<Rightarrow>
                      surf_scan_loop lib (st'\<lparr>ssline := clear (ssline st')\<rparr>)
                  | Some (Throws e) \<Rightarrow> Some (Throws e)
                  | Some (Undefined u) \<Rightarrow> Some (Undefined u))))"

text \<open>
  The loops that fill the grid:
  \<^verbatim>\<open>
  for (int j = 0; j < num_cp_v; ++j) {
      for (int i = 0; i < num_cp_u; ++i) {
          assert(i < ctrlPts.rows() && j < ctrlPts.cols());
          ctrlPts(i, j) = ctrl_pts_buf[indices[num] - 1];
          weights(i, j) = weights_buf[indices[num] - 1];
          ++num;
      }
  }
  \<close>
\<close>

function surf_fill_u ::
  "'a vec3 list \<Rightarrow> 'a list \<Rightarrow> int list \<Rightarrow> int \<Rightarrow> int \<Rightarrow> int \<Rightarrow> nat
   \<Rightarrow> 'a vec3 array2 \<Rightarrow> 'a array2 \<Rightarrow> (nat \<times> 'a vec3 array2 \<times> 'a array2) outcome" where
  "surf_fill_u pool wpool idx num_cp_u j i num ctrlPts weights =
     (if i < num_cp_u then
        if \<not> (0 \<le> i \<and> 0 \<le> j \<and> nat i < rows ctrlPts \<and> nat j < cols ctrlPts) then
          Throws Assertion_failure
        else if \<not> num < length idx then Undefined Out_of_bounds_read
        else if \<not> (0 \<le> idx ! num - 1 \<and> nat (idx ! num - 1) < length pool) then
          Undefined Out_of_bounds_read
        else if \<not> nat (idx ! num - 1) < length wpool then Undefined Out_of_bounds_read
        else surf_fill_u pool wpool idx num_cp_u j (i + 1) (num + 1)
               (array2_set ctrlPts (nat i) (nat j) (pool ! nat (idx ! num - 1)))
               (array2_set weights (nat i) (nat j) (wpool ! nat (idx ! num - 1)))
      else Returns (num, ctrlPts, weights))"
  by pat_completeness auto
termination
  by (relation "measure (\<lambda>(pool, wpool, idx, num_cp_u, j, i, num, ctrlPts, weights).
                   nat (num_cp_u - i))") auto

declare surf_fill_u.simps [simp del]

function surf_fill_v ::
  "'a vec3 list \<Rightarrow> 'a list \<Rightarrow> int list \<Rightarrow> int \<Rightarrow> int \<Rightarrow> int \<Rightarrow> nat
   \<Rightarrow> 'a vec3 array2 \<Rightarrow> 'a array2 \<Rightarrow> ('a vec3 array2 \<times> 'a array2) outcome" where
  "surf_fill_v pool wpool idx num_cp_u num_cp_v j num ctrlPts weights =
     (if j < num_cp_v then
        (case surf_fill_u pool wpool idx num_cp_u j 0 num ctrlPts weights of
           Returns (num', ctrlPts', weights') \<Rightarrow>
             surf_fill_v pool wpool idx num_cp_u num_cp_v (j + 1) num' ctrlPts' weights'
         | Throws e \<Rightarrow> Throws e
         | Undefined u \<Rightarrow> Undefined u)
      else Returns (ctrlPts, weights))"
  by pat_completeness auto
termination
  by (relation "measure (\<lambda>(pool, wpool, idx, num_cp_u, num_cp_v, j, num, ctrlPts, weights).
                   nat (num_cp_v - j))") auto

declare surf_fill_v.simps [simp del]

text \<open>What \<^verbatim>\<open>internal::surfaceReadOBJ\<close> leaves in its reference parameters.\<close>

record 'a surf_out =
  s_deg_u :: "32 word"
  s_deg_v :: "32 word"
  s_knots_u :: "'a list"
  s_knots_v :: "'a list"
  s_ctrlPts :: "'a vec3 array2"
  s_weights :: "'a array2"
  s_rational :: bool

text \<open>
  The part of \<^verbatim>\<open>internal::surfaceReadOBJ\<close> after the scan. What \<^verbatim>\<open>array2::resize\<close>
  does with a negative count is not in the spec; the model gives the \<^verbatim>\<open>length_error\<close> of
  the vector underneath, as for a curve.
\<close>

definition surf_build :: "('a, 'd, 'f) numlib \<Rightarrow> 'a surf_scan \<Rightarrow> 'a surf_out outcome" where
  "surf_build lib st =
     (case required_check ''surf'' (parsed st) of
        Some e \<Rightarrow> Throws e
      | None \<Rightarrow>
          (let num_knots_u = (word_of_nat (length (temp_uknots st)) :: 32 word);
               num_knots_v = (word_of_nat (length (temp_vknots st)) :: 32 word);
               num_cp_u = sint (num_knots_u - deg_u st - 1);
               num_cp_v = sint (num_knots_v - deg_v st - 1)
           in if num_cp_u < 0 \<or> num_cp_v < 0 then Throws Length_error
              else
                (case surf_fill_v (ctrl_pts_buf st) (weights_buf st) (indices st)
                        num_cp_u num_cp_v 0 0
                        (array2_resize (nat num_cp_u) (nat num_cp_v)
                           (T_zero lib, T_zero lib, T_zero lib))
                        (array2_resize (nat num_cp_u) (nat num_cp_v) (T_zero lib)) of
                   Returns (ctrlPts, weights) \<Rightarrow>
                     Returns \<lparr>s_deg_u = deg_u st, s_deg_v = deg_v st,
                              s_knots_u = temp_uknots st, s_knots_v = temp_vknots st,
                              s_ctrlPts = ctrlPts, s_weights = weights,
                              s_rational = rational st\<rparr>
                 | Throws e \<Rightarrow> Throws e
                 | Undefined u \<Rightarrow> Undefined u)))"

definition surf_init :: "ToParse \<Rightarrow> string \<Rightarrow> 32 word \<Rightarrow> 32 word \<Rightarrow> bool \<Rightarrow> 'a surf_scan" where
  "surf_init garbage c deg_u0 deg_v0 rational0 =
     \<lparr>ifile = open_stream c, sline = [], ssline = open_stream [], start = [], token = [],
      ctrl_pts_buf = [], weights_buf = [], indices = [], parsed = garbage,
      rational = rational0, temp_uknots = [], temp_vknots = [],
      deg_u = deg_u0, deg_v = deg_v0\<rparr>"

definition surfaceReadOBJ ::
  "('a, 'd, 'f) numlib \<Rightarrow> ToParse \<Rightarrow> string \<Rightarrow> string option \<Rightarrow> 32 word \<Rightarrow> 32 word \<Rightarrow> bool
   \<Rightarrow> 'a surf_out outcome option" where
  "surfaceReadOBJ lib garbage filename contents deg_u0 deg_v0 rational0 =
     (case contents of
        None \<Rightarrow> Some (Throws (Runtime_error (''File not found: '' @ filename)))
      | Some c \<Rightarrow>
          and_then (surf_scan_loop lib (surf_init garbage c deg_u0 deg_v0 rational0))
            (\<lambda>st. Some (surf_build lib st)))"

section \<open>Writing\<close>

text \<open>
  The writers are modelled by the text they put into the file; \<^verbatim>\<open>std::endl\<close> is a newline.
  A file that cannot be opened for writing is not modelled.

  The first loop of \<^verbatim>\<open>internal::curveSaveOBJ\<close>:
  \<^verbatim>\<open>
  for (int i = 0; i < ctrlPts.size(); ++i) {
      fout << "v " << ctrlPts[i].x << " " << ctrlPts[i].y << " " << ctrlPts[i].z <<
           " " << weights[i] << endl;
  }
  \<close>
\<close>

definition v_line :: "('a, 'd, 'f) numlib \<Rightarrow> 'a vec3 \<Rightarrow> 'a \<Rightarrow> string" where
  "v_line lib p w =
     (case p of
        (x, y, z) \<Rightarrow>
          ''v '' @ put_T lib x @ '' '' @ put_T lib y @ '' '' @ put_T lib z @ '' '' @ put_T lib w
          @ [newline])"



definition cstype_line :: "bool \<Rightarrow> string" where
  "cstype_line rational' =
     (if \<not> rational' then ''cstype bspline'' else ''cstype rat bspline'') @ [newline]"

text \<open>The 1-based indices \<^verbatim>\<open>" " << i + 1\<close> for \<open>i\<close> from 0 below \<open>n\<close>.\<close>

definition index_list :: "('a, 'd, 'f) numlib \<Rightarrow> nat \<Rightarrow> string" where
  "index_list lib n = concat (map (\<lambda>i. '' '' @ put_int lib (int i + 1)) [0..<n])"

text \<open>\<^verbatim>\<open>for (auto knot : knots) { fout << " " << knot; }\<close>\<close>

definition knot_list :: "('a, 'd, 'f) numlib \<Rightarrow> 'a list \<Rightarrow> string" where
  "knot_list lib knots = concat (map (\<lambda>knot. '' '' @ put_T lib knot) knots)"


text \<open>
  The first loops of \<^verbatim>\<open>internal::surfaceSaveOBJ\<close>:
  \<^verbatim>\<open>
  for (int j = 0; j < ctrlPts.cols(); j++) {
      for (int i = 0; i < ctrlPts.rows(); i++) {
          fout << "v " << ctrlPts(i, j).x << ... << " " << weights(i, j) << endl;
      }
  }
  \<close>
\<close>

function surf_save_u ::
  "('a, 'd, 'f) numlib \<Rightarrow> 'a vec3 array2 \<Rightarrow> 'a array2 \<Rightarrow> nat \<Rightarrow> nat \<Rightarrow> string \<Rightarrow> string outcome" where
  "surf_save_u lib ctrlPts weights j i fout =
     (if i < rows ctrlPts then
        (case array2_at ctrlPts i j of
           None \<Rightarrow> Undefined Out_of_bounds_read
         | Some p \<Rightarrow>
             (case array2_at weights i j of
                None \<Rightarrow> Undefined Out_of_bounds_read
              | Some w \<Rightarrow> surf_save_u lib ctrlPts weights j (i + 1) (fout @ v_line lib p w)))
      else Returns fout)"
  by pat_completeness auto
termination
  by (relation "measure (\<lambda>(lib, ctrlPts, weights, j, i, fout). rows ctrlPts - i)") auto

declare surf_save_u.simps [simp del]

function surf_save_v ::
  "('a, 'd, 'f) numlib \<Rightarrow> 'a vec3 array2 \<Rightarrow> 'a array2 \<Rightarrow> nat \<Rightarrow> string \<Rightarrow> string outcome" where
  "surf_save_v lib ctrlPts weights j fout =
     (if j < cols ctrlPts then
        (case surf_save_u lib ctrlPts weights j 0 fout of
           Returns fout' \<Rightarrow> surf_save_v lib ctrlPts weights (j + 1) fout'
         | Throws e \<Rightarrow> Throws e
         | Undefined u \<Rightarrow> Undefined u)
      else Returns fout)"
  by pat_completeness auto
termination
  by (relation "measure (\<lambda>(lib, ctrlPts, weights, j, fout). cols ctrlPts - j)") auto

declare surf_save_v.simps [simp del]

text \<open>
  \<^verbatim>\<open>internal::surfaceSaveOBJ\<close>. The file is opened, and so emptied, before the test
  \<^verbatim>\<open>if (ctrlPts.rows() == 0 || ctrlPts.cols() == 0) { return; }\<close>.
\<close>

definition surfaceSaveOBJ ::
  "('a, 'd, 'f) numlib \<Rightarrow> 32 word \<Rightarrow> 32 word \<Rightarrow> 'a list \<Rightarrow> 'a list \<Rightarrow> 'a vec3 array2
   \<Rightarrow> 'a array2 \<Rightarrow> bool \<Rightarrow> string outcome" where
  "surfaceSaveOBJ lib deg_u' deg_v' knots_u knots_v ctrlPts weights rational' =
     (if rows ctrlPts = 0 \<or> cols ctrlPts = 0 then Returns []
      else
        (case surf_save_v lib ctrlPts weights 0 [] of
           Returns fout \<Rightarrow>
             (let nknots_u = (word_of_nat (length knots_u) :: 32 word);
                  nknots_v = (word_of_nat (length knots_v) :: 32 word);
                  nCpU = sint (word_of_nat (rows ctrlPts) :: 32 word);
                  nCpV = sint (word_of_nat (cols ctrlPts) :: 32 word)
              in if \<not> unat deg_u' < length knots_u then Undefined Out_of_bounds_read
                 else if \<not> unat (nknots_u - deg_u' - 1) < length knots_u then
                   Undefined Out_of_bounds_read
                 else if \<not> unat deg_v' < length knots_v then Undefined Out_of_bounds_read
                 else if \<not> unat (nknots_v - deg_v' - 1) < length knots_v then
                   Undefined Out_of_bounds_read
                 else if \<not> (- (2 ^ 31) \<le> nCpU * nCpV \<and> nCpU * nCpV < 2 ^ 31) then
                   Undefined Signed_overflow
                 else
                   Returns
                     (fout @ cstype_line rational'
                      @ ''deg '' @ put_uint lib deg_u' @ '' '' @ put_uint lib deg_v' @ [newline]
                      @ ''surf '' @ put_T lib (knots_u ! unat deg_u') @ '' ''
                      @ put_T lib (knots_u ! unat (nknots_u - deg_u' - 1)) @ '' ''
                      @ put_T lib (knots_v ! unat deg_v') @ '' ''
                      @ put_T lib (knots_v ! unat (nknots_v - deg_v' - 1))
                      @ index_list lib (nat (nCpU * nCpV)) @ [newline]
                      @ ''parm u'' @ knot_list lib knots_u @ [newline]
                      @ ''parm v'' @ knot_list lib knots_v @ [newline]
                      @ ''end''))
         | Throws e \<Rightarrow> Throws e
         | Undefined u \<Rightarrow> Undefined u))"

section \<open>The functions for curve and surface objects\<close>















section \<open>A numeric library for unsigned decimal literals\<close>

text \<open>
  An instance of the library for concrete files. It agrees with the C++ library on the
  numbers such files are written with here: tokens made of decimal digits, of a value small
  enough to be exact in a \<^verbatim>\<open>float\<close>. All three number types are \<open>int\<close>.
\<close>

definition is_digit :: "char \<Rightarrow> bool" where
  "is_digit c = (c \<in> set ''0123456789'')"

definition digit_val :: "char \<Rightarrow> nat" where
  "digit_val c = of_char c - 48"

definition dec_val :: "string \<Rightarrow> nat" where
  "dec_val ds = foldl (\<lambda>a c. 10 * a + digit_val c) 0 ds"

function put_nat :: "nat \<Rightarrow> string" where
  "put_nat n = (if n < 10 then [char_of (48 + n)] else put_nat (n div 10) @ [char_of (48 + n mod 10)])"
  by pat_completeness auto
termination
  by (relation "measure id") auto

declare put_nat.simps [simp del]

definition dec_get :: "string \<Rightarrow> int \<times> bool \<times> string" where
  "dec_get s =
     (if takeWhile is_digit s = [] then (0, False, s)
      else (int (dec_val (takeWhile is_digit s)), True, dropWhile is_digit s))"

definition dec_get_uint :: "string \<Rightarrow> 32 word \<times> bool \<times> string" where
  "dec_get_uint s =
     (if takeWhile is_digit s = [] then (0, False, s)
      else if dec_val (takeWhile is_digit s) < 2 ^ 32 then
        (word_of_nat (dec_val (takeWhile is_digit s)), True, dropWhile is_digit s)
      else (- 1, False, dropWhile is_digit s))"

definition dec_stof :: "string \<Rightarrow> int option" where
  "dec_stof s =
     (if takeWhile is_digit s = [] then None else Some (int (dec_val (takeWhile is_digit s))))"

definition dec_put_int :: "int \<Rightarrow> string" where
  "dec_put_int i = (if i < 0 then CHR ''-'' # put_nat (nat (- i)) else put_nat (nat i))"

definition dec_lib :: "(int, int, int) numlib" where
  "dec_lib =
     \<lparr>get_double = dec_get, get_T = dec_get, get_uint = dec_get_uint, stof = dec_stof,
      double_zero = 0, double_one = 1, T_zero = 0, T_one = 1,
      double_to_T = (\<lambda>x. x), float_to_T = (\<lambda>x. x),
      float_to_int = (\<lambda>x. if x < 2 ^ 31 then Some x else None),
      put_T = dec_put_int, put_uint = (\<lambda>w. put_nat (unat w)), put_int = dec_put_int\<rparr>"


section \<open>A numeric library with six digits and a float\<close>











section \<open>Concrete inputs\<close>

text \<open>Flags of \<^verbatim>\<open>ToParse\<close> that happen to start cleared, and flags that happen to start
  set.\<close>

definition unseen :: ToParse where
  "unseen = \<lparr>seen_deg = False, seen_cstype = False, seen_body = False, seen_parm = False\<rparr>"

definition all_seen :: ToParse where
  "all_seen = \<lparr>seen_deg = True, seen_cstype = True, seen_body = True, seen_parm = True\<rparr>"

text \<open>A curve file with an empty line after its vertex.\<close>

definition blank_line_file :: string where
  "blank_line_file =
     ''v 1 2 3'' @ [newline] @ [newline] @ ''cstype bspline'' @ [newline] @ ''deg 1'' @ [newline]
     @ ''curv 0 1 1'' @ [newline] @ ''parm u 0 0 1'' @ [newline] @ ''end''"

text \<open>A curve file whose only \<^verbatim>\<open>parm\<close> record is for the axis \<^verbatim>\<open>v\<close>.\<close>

definition parm_v_file :: string where
  "parm_v_file =
     ''cstype bspline'' @ [newline] @ ''deg 0'' @ [newline] @ ''curv 0 1'' @ [newline]
     @ ''parm v 0 0 1 1'' @ [newline]"

text \<open>A curve file with one vertex, one control point, and the index 5.\<close>

definition bad_index_file :: string where
  "bad_index_file =
     ''v 1 2 3'' @ [newline] @ ''cstype bspline'' @ [newline] @ ''deg 1'' @ [newline]
     @ ''curv 0 1 5'' @ [newline] @ ''parm u 0 0 1'' @ [newline]"

text \<open>The same with no index at all.\<close>

definition no_index_file :: string where
  "no_index_file =
     ''v 1 2 3'' @ [newline] @ ''cstype bspline'' @ [newline] @ ''deg 1'' @ [newline]
     @ ''curv 0 1'' @ [newline] @ ''parm u 0 0 1'' @ [newline]"

text \<open>A surface file with one vertex, a grid of one control point, and the index 7.\<close>

definition bad_index_surface_file :: string where
  "bad_index_surface_file =
     ''v 1 2 3'' @ [newline] @ ''cstype bspline'' @ [newline] @ ''deg 0 0'' @ [newline]
     @ ''surf 0 1 0 1 7'' @ [newline] @ ''parm u 0 1'' @ [newline] @ ''parm v 0 1'' @ [newline]"

text \<open>A curve file with the largest \<^verbatim>\<open>unsigned int\<close> as its degree and no knot.\<close>

definition huge_degree_file :: string where
  "huge_degree_file =
     ''cstype bspline'' @ [newline] @ ''deg 4294967295'' @ [newline] @ ''curv 0 1'' @ [newline]
     @ ''parm u'' @ [newline]"

text \<open>A curve file without a \<^verbatim>\<open>deg\<close> record.\<close>

definition no_deg_file :: string where
  "no_deg_file =
     ''cstype bspline'' @ [newline] @ ''curv 0 1'' @ [newline] @ ''parm u 0'' @ [newline]"

text \<open>Scan states at a \<^verbatim>\<open>v\<close> record with three fields, after \<^verbatim>\<open>ssline >> start\<close>.\<close>

definition at_v_record :: "('a, 'z) scan_scheme \<Rightarrow> ('a, 'z) scan_scheme" where
  "at_v_record st =
     st\<lparr>start := ''v'', ssline := \<lparr>unread = '' 1 2 3'', eofbit = False, failbit = False\<rparr>\<rparr>"

text \<open>A scan state at a record \<^verbatim>\<open>parm v 0 0 1 1\<close>, after \<^verbatim>\<open>ssline >> start\<close>.\<close>

definition at_parm_v_record :: "int curve_scan" where
  "at_parm_v_record =
     (curve_init unseen [] 0 False)
       \<lparr>start := ''parm'', ssline := \<lparr>unread = '' v 0 0 1 1'', eofbit = False, failbit = False\<rparr>\<rparr>"

text \<open>A surface file with six vertices for a grid of 2 by 3 control points, and the state
  of the scan at its end.\<close>

definition grid_file :: string where
  "grid_file =
     ''v 1 1 1'' @ [newline] @ ''v 2 2 2'' @ [newline] @ ''v 3 3 3'' @ [newline]
     @ ''v 4 4 4'' @ [newline] @ ''v 5 5 5'' @ [newline] @ ''v 6 6 6'' @ [newline]
     @ ''cstype bspline'' @ [newline] @ ''deg 1 1'' @ [newline]
     @ ''surf 0 1 0 2 1 2 3 4 5 6'' @ [newline]
     @ ''parm u 0 0 1 1'' @ [newline] @ ''parm v 0 0 1 2 2'' @ [newline] @ ''end''"

definition grid_scan :: "int surf_scan" where
  "grid_scan =
     (surf_init all_seen [] 1 1 False)
       \<lparr>ctrl_pts_buf := [(1, 1, 1), (2, 2, 2), (3, 3, 3), (4, 4, 4), (5, 5, 5), (6, 6, 6)],
        weights_buf := [1, 1, 1, 1, 1, 1],
        indices := [1, 2, 3, 4, 5, 6],
        temp_uknots := [0, 0, 1, 1],
        temp_vknots := [0, 0, 1, 2, 2]\<rparr>"

text \<open>The surface that \<^verbatim>\<open>surfaceReadOBJ\<close> builds from \<open>grid_scan\<close>.\<close>

definition grid_out :: "int surf_out" where
  "grid_out =
     \<lparr>s_deg_u = 1, s_deg_v = 1, s_knots_u = [0, 0, 1, 1], s_knots_v = [0, 0, 1, 2, 2],
      s_ctrlPts = \<lparr>rows = 2, cols = 3,
                   cells = [(1, 1, 1), (3, 3, 3), (5, 5, 5), (2, 2, 2), (4, 4, 4), (6, 6, 6)]\<rparr>,
      s_weights = \<lparr>rows = 2, cols = 3, cells = [1, 1, 1, 1, 1, 1]\<rparr>,
      s_rational = False\<rparr>"




text \<open>A curve file and a surface file whose vertex has three numbers and then a word.\<close>

definition word_after_v_file :: string where
  "word_after_v_file =
     ''v 1 2 3 x'' @ [newline] @ ''cstype bspline'' @ [newline] @ ''deg 0'' @ [newline]
     @ ''curv 0 1 1'' @ [newline] @ ''parm u 0 1'' @ [newline] @ ''end''"

definition word_after_v_surface_file :: string where
  "word_after_v_surface_file =
     ''v 1 2 3 x'' @ [newline] @ ''cstype bspline'' @ [newline] @ ''deg 0 0'' @ [newline]
     @ ''surf 0 1 0 1 1'' @ [newline] @ ''parm u 0 1'' @ [newline] @ ''parm v 0 1'' @ [newline]
     @ ''end''"











section \<open>Notions for the statements\<close>

text \<open>A token that the conversion \<open>get\<close> reads wholly as the number \<open>v\<close>, whatever
  follows it after white space.\<close>

definition numeric_token :: "(string \<Rightarrow> 'v \<times> bool \<times> string) \<Rightarrow> string \<Rightarrow> 'v \<Rightarrow> bool" where
  "numeric_token get t v =
     (t \<noteq> [] \<and> \<not> isspace (hd t)
      \<and> (\<forall>r. r = [] \<or> isspace (hd r) \<longrightarrow> get (t @ r) = (v, True, r)))"

text \<open>The fields of a record, each after the white space given for it.\<close>

definition spaced :: "string list \<Rightarrow> string list \<Rightarrow> string" where
  "spaced gaps ts = concat (map (\<lambda>(g, t). g @ t) (zip gaps ts))"


text \<open>The tokens of a line: its maximal runs of characters that are not white space.\<close>

function tokens_of :: "string \<Rightarrow> string list" where
  "tokens_of l =
     (if dropWhile isspace l = [] then []
      else takeWhile (\<lambda>c. \<not> isspace c) (dropWhile isspace l)
           # tokens_of (dropWhile (\<lambda>c. \<not> isspace c) (dropWhile isspace l)))"
  by pat_completeness auto
termination
proof (relation "measure length")
  show "wf (measure length)"
    by simp
next
  fix l :: string
  assume ne: "dropWhile isspace l \<noteq> []"
  then have "\<not> isspace (hd (dropWhile isspace l))"
    by (simp add: hd_dropWhile)
  then have "length (dropWhile (\<lambda>c. \<not> isspace c) (dropWhile isspace l))
               < length (dropWhile isspace l)"
    using ne by (cases "dropWhile isspace l") (auto intro: le_imp_less_Suc length_dropWhile_le)
  moreover have "length (dropWhile isspace l) \<le> length l"
    by (rule length_dropWhile_le)
  ultimately show "(dropWhile (\<lambda>c. \<not> isspace c) (dropWhile isspace l), l) \<in> measure length"
    by simp
qed

declare tokens_of.simps [simp del]

text \<open>The numbers that \<^verbatim>\<open>std::stof\<close> gives for a list of tokens.\<close>

definition stof_values :: "('a, 'd, 'f) numlib \<Rightarrow> string list \<Rightarrow> 'f list" where
  "stof_values lib ts = map (\<lambda>t. the (stof lib t)) ts"

text \<open>A destination of the token loop that stores the number and leaves the streams, the
  line and the token alone.\<close>

definition lexer_independent ::
  "('f \<Rightarrow> ('a, 'z) scan_scheme \<Rightarrow> ('a, 'z) scan_scheme) \<Rightarrow> bool" where
  "lexer_independent upd =
     (\<forall>v st a b c d.
        upd v (st\<lparr>ifile := a, sline := b, ssline := c, token := d\<rparr>) =
        (upd v st)\<lparr>ifile := a, sline := b, ssline := c, token := d\<rparr>)"

text \<open>Tokens that the token loop stores: none is the continuation marker, each is a
  number for \<^verbatim>\<open>std::stof\<close>, and, for an index, its float is an \<^verbatim>\<open>int\<close>.\<close>

definition knot_tokens :: "('a, 'd, 'f) numlib \<Rightarrow> string list \<Rightarrow> bool" where
  "knot_tokens lib ts = (\<forall>t\<in>set ts. t \<noteq> backslash \<and> stof lib t \<noteq> None)"

definition index_tokens :: "('a, 'd, 'f) numlib \<Rightarrow> string list \<Rightarrow> bool" where
  "index_tokens lib ts =
     (\<forall>t\<in>set ts. t \<noteq> backslash \<and> (\<exists>v. stof lib t = Some v \<and> float_to_int lib v \<noteq> None))"

text \<open>
  A list broken over physical lines: each of the lines \<open>ms\<close> holds the tokens given for
  it in \<open>tss\<close> and ends in the continuation marker, the line \<open>lf\<close> holds the tokens \<open>tf\<close>
  and no marker.
\<close>

definition broken_lines :: "string list \<Rightarrow> string list list \<Rightarrow> string \<Rightarrow> string list \<Rightarrow> bool" where
  "broken_lines ms tss lf tf =
     (list_all2 (\<lambda>l ts. tokens_of l = ts @ [backslash] \<and> newline \<notin> set l) ms tss
      \<and> tokens_of lf = tf \<and> newline \<notin> set lf)"

text \<open>The state of a reader that enters the token loop with the first of the lines \<open>ls\<close>
  left in \<^verbatim>\<open>ssline\<close> and the other lines, then \<open>rest\<close>, left in the file.\<close>

definition at_lines ::
  "('a, 'z) scan_scheme \<Rightarrow> string list \<Rightarrow> string \<Rightarrow> ('a, 'z) scan_scheme" where
  "at_lines st ls rest =
     st\<lparr>ifile := \<lparr>unread = concat (map (\<lambda>l. l @ [newline]) (tl ls)) @ rest,
                  eofbit = False, failbit = False\<rparr>,
        ssline := \<lparr>unread = hd ls, eofbit = False, failbit = False\<rparr>\<rparr>"

text \<open>Two states that differ at most in the variables \<^verbatim>\<open>sline\<close> and \<^verbatim>\<open>token\<close>.\<close>

definition same_but_line :: "('a, 'z) scan_scheme \<Rightarrow> ('a, 'z) scan_scheme \<Rightarrow> bool" where
  "same_but_line a b = (a\<lparr>sline := [], token := []\<rparr> = b\<lparr>sline := [], token := []\<rparr>)"

text \<open>
  What a number becomes when it is written and read back: a coordinate or a weight is
  written with \<^verbatim>\<open><<\<close> and read with \<^verbatim>\<open>>>\<close> into a \<^verbatim>\<open>double\<close>, a knot is written with
  \<^verbatim>\<open><<\<close> and read with \<^verbatim>\<open>std::stof\<close>.
\<close>

definition reread_coord :: "('a, 'd, 'f) numlib \<Rightarrow> 'a \<Rightarrow> 'a" where
  "reread_coord lib x = double_to_T lib (fst (get_double lib (put_T lib x)))"


definition reread_knot :: "('a, 'd, 'f) numlib \<Rightarrow> 'a \<Rightarrow> 'a" where
  "reread_knot lib k = float_to_T lib (the (stof lib (put_T lib k)))"











text \<open>A grid whose cells are as many as its extents say.\<close>

definition array2_wf :: "'e array2 \<Rightarrow> bool" where
  "array2_wf a = (length (cells a) = rows a * cols a)"




text \<open>The \<open>k\<close>-th of the four coordinates of a \<^verbatim>\<open>v\<close> record with the numbers \<open>vs\<close>:
  the number read, or else 0 for a position and 1 for the weight.\<close>

definition coord_or_default :: "('a, 'd, 'f) numlib \<Rightarrow> 'd list \<Rightarrow> nat \<Rightarrow> 'd" where
  "coord_or_default lib vs k =
     (if k < length vs then vs ! k else if k = 3 then double_one lib else double_zero lib)"







section \<open>Unfolding the loops\<close>

text \<open>One turn of each loop, as rewrite rules that apply only once the branch taken
  is known.\<close>

lemma token_loop_stop:
  "failbit (fst (extract_string (ssline st) (token st))) \<Longrightarrow>
   token_loop s p st =
     Some (Returns (st\<lparr>ssline := fst (extract_string (ssline st) (token st)),
                        token := snd (extract_string (ssline st) (token st))\<rparr>))"
  by (subst token_loop.simps) (auto split: prod.splits)

lemma token_loop_continue:
  "\<not> failbit (fst (extract_string (ssline st) (token st))) \<Longrightarrow>
   snd (extract_string (ssline st) (token st)) = backslash \<Longrightarrow>
   token_loop s p st =
     token_loop s p
       (st\<lparr>ssline := str (clear (fst (extract_string (ssline st) (token st))))
                        (snd (getline (ifile st) (sline st))),
           token := backslash,
           ifile := fst (getline (ifile st) (sline st)),
           sline := snd (getline (ifile st) (sline st))\<rparr>)"
  by (subst token_loop.simps) (auto split: prod.splits)

lemma token_loop_push:
  "\<not> failbit (fst (extract_string (ssline st) (token st))) \<Longrightarrow>
   snd (extract_string (ssline st) (token st)) \<noteq> backslash \<Longrightarrow>
   token_loop s p st =
     (case s (snd (extract_string (ssline st) (token st))) of
        None \<Rightarrow> Some (Throws Stof_error)
      | Some v \<Rightarrow>
          (case p v (st\<lparr>ssline := fst (extract_string (ssline st) (token st)),
                         token := snd (extract_string (ssline st) (token st))\<rparr>) of
             Returns st' \<Rightarrow> token_loop s p st'
           | Throws e \<Rightarrow> Some (Throws e)
           | Undefined u \<Rightarrow> Some (Undefined u)))"
  by (subst token_loop.simps) (auto split: prod.splits option.splits outcome.splits)

lemma curve_scan_loop_stop:
  "failbit (fst (getline (ifile st) (sline st))) \<Longrightarrow>
   curve_scan_loop lib st =
     Some (Returns (st\<lparr>ifile := fst (getline (ifile st) (sline st)),
                        sline := snd (getline (ifile st) (sline st))\<rparr>))"
  by (subst curve_scan_loop.simps) (auto split: prod.splits)

lemma curve_scan_loop_empty:
  "\<not> failbit (fst (getline (ifile st) (sline st))) \<Longrightarrow>
   snd (getline (ifile st) (sline st)) = [] \<Longrightarrow>
   curve_scan_loop lib st =
     curve_scan_loop lib (st\<lparr>ifile := fst (getline (ifile st) (sline st)), sline := []\<rparr>)"
  by (subst curve_scan_loop.simps) (auto split: prod.splits)

lemma curve_scan_loop_record:
  "\<not> failbit (fst (getline (ifile st) (sline st))) \<Longrightarrow>
   snd (getline (ifile st) (sline st)) \<noteq> [] \<Longrightarrow>
   curve_scan_loop lib st =
     (case curve_record lib
             (st\<lparr>ifile := fst (getline (ifile st) (sline st)),
                 sline := snd (getline (ifile st) (sline st)),
                 ssline := fst (extract_string
                                  (str (ssline st) (snd (getline (ifile st) (sline st))))
                                  (start st)),
                 start := snd (extract_string
                                 (str (ssline st) (snd (getline (ifile st) (sline st))))
                                 (start st))\<rparr>) of
        None \<Rightarrow> None
      | Some (Returns (st', Break)) \<Rightarrow> Some (Returns st')
      | Some (Returns (st', Continue)) \<Rightarrow>
          curve_scan_loop lib (st'\<lparr>ssline := clear (ssline st')\<rparr>)
      | Some (Throws e) \<Rightarrow> Some (Throws e)
      | Some (Undefined u) \<Rightarrow> Some (Undefined u))"
  by (subst curve_scan_loop.simps) (auto split: prod.splits)

lemma surf_scan_loop_stop:
  "failbit (fst (getline (ifile st) (sline st))) \<Longrightarrow>
   surf_scan_loop lib st =
     Some (Returns (st\<lparr>ifile := fst (getline (ifile st) (sline st)),
                        sline := snd (getline (ifile st) (sline st))\<rparr>))"
  by (subst surf_scan_loop.simps) (auto split: prod.splits)

lemma surf_scan_loop_empty:
  "\<not> failbit (fst (getline (ifile st) (sline st))) \<Longrightarrow>
   snd (getline (ifile st) (sline st)) = [] \<Longrightarrow>
   surf_scan_loop lib st =
     Some (Returns (st\<lparr>ifile := fst (getline (ifile st) (sline st)), sline := []\<rparr>))"
  by (subst surf_scan_loop.simps) (auto split: prod.splits)

lemma surf_scan_loop_record:
  "\<not> failbit (fst (getline (ifile st) (sline st))) \<Longrightarrow>
   snd (getline (ifile st) (sline st)) \<noteq> [] \<Longrightarrow>
   surf_scan_loop lib st =
     (case surf_record lib
             (st\<lparr>ifile := fst (getline (ifile st) (sline st)),
                 sline := snd (getline (ifile st) (sline st)),
                 ssline := fst (extract_string
                                  (str (ssline st) (snd (getline (ifile st) (sline st))))
                                  (start st)),
                 start := snd (extract_string
                                 (str (ssline st) (snd (getline (ifile st) (sline st))))
                                 (start st))\<rparr>) of
        None \<Rightarrow> None
      | Some (Returns (st', Break)) \<Rightarrow> Some (Returns st')
      | Some (Returns (st', Continue)) \<Rightarrow>
          surf_scan_loop lib (st'\<lparr>ssline := clear (ssline st')\<rparr>)
      | Some (Throws e) \<Rightarrow> Some (Throws e)
      | Some (Undefined u) \<Rightarrow> Some (Undefined u))"
  by (subst surf_scan_loop.simps) (auto split: prod.splits)

text \<open>The rules that evaluate a reader on a concrete file written with decimal
  literals.\<close>

lemmas stream_eval =
  open_stream_def getline_def good_def newline_def extract_string_def sentry_def
  isspace_def str_def clear_def backslash_def extract_num_def

lemmas dec_eval =
  dec_lib_def dec_get_def dec_get_uint_def dec_stof_def is_digit_def dec_val_def digit_val_def

lemmas record_eval =
  token_loop_stop token_loop_continue token_loop_push
  read_v_def read_cstype_def read_coords.simps and_then_def push_index_def
  required_check_def quoted_def

lemmas curve_eval =
  curve_scan_loop_stop curve_scan_loop_empty curve_scan_loop_record
  curveReadOBJ_def curve_init_def curve_record_def push_knot_def curve_build_def
  curve_fill.simps

lemmas surf_eval =
  surf_scan_loop_stop surf_scan_loop_empty surf_scan_loop_record
  surfaceReadOBJ_def surf_init_def surf_record_def push_uknot_def push_vknot_def
  surf_build_def surf_fill_u.simps surf_fill_v.simps
  array2_resize_def array2_set_def array2_at_def


lemma replicate_num: "replicate (numeral k) x = x # replicate (pred_numeral k) x"
  by (simp add: numeral_eq_Suc)

lemma update_num: "(x # xs)[numeral k := y] = x # xs[pred_numeral k := y]"
  by (simp add: numeral_eq_Suc)

section \<open>Empty lines\<close>

text \<open>
  Claim C7, as stated: an empty line ends the record scan of both readers, so that
  \<^verbatim>\<open>curveReadOBJ\<close> processes no record after the first empty line. It fails for the curve
  reader: in \<open>blank_line_file\<close> the records \<^verbatim>\<open>cstype\<close>, \<^verbatim>\<open>deg\<close>, \<^verbatim>\<open>curv\<close> and
  \<^verbatim>\<open>parm\<close> all come after the empty line, and the curve read has their degree and knots,
  whereas the file cut at its empty line is rejected for its missing \<^verbatim>\<open>cstype\<close>.
\<close>

theorem curve_reader_continues_after_empty_line:
  "curveReadOBJ dec_lib unseen ''c.obj'' (Some blank_line_file) 0 False =
     Some (Returns \<lparr>c_deg = 1, c_knots = [0, 0, 1], c_ctrlPts = [(1, 2, 3)], c_weights = [1],
                    c_rational = False\<rparr>)
   \<and> curveReadOBJ dec_lib unseen ''c.obj'' (Some (''v 1 2 3'' @ [newline])) 0 False =
     Some (Throws (Runtime_error
       (quoted ''cstype bspline / cstype rat bspline'' @ '' line missing in file'')))"
  by (simp add: blank_line_file_def unseen_def stream_eval dec_eval record_eval curve_eval
        replicate_num update_num)

text \<open>
  Claim C7, amended: when the next line of the file is empty at the head of the scan loop,
  \<^verbatim>\<open>curveReadOBJ\<close> skips it and scans on with the lines after it, and
  \<^verbatim>\<open>surfaceReadOBJ\<close> ends its scan there without an error, keeping what it has collected.
\<close>

theorem empty_line_skipped_by_curve_ends_surface_scan:
  "curve_scan_loop lib
     (st\<lparr>ifile := \<lparr>unread = newline # rest, eofbit = False, failbit = False\<rparr>\<rparr>) =
   curve_scan_loop lib
     (st\<lparr>ifile := \<lparr>unread = rest, eofbit = False, failbit = False\<rparr>, sline := []\<rparr>)
   \<and> surf_scan_loop lib
     (st'\<lparr>ifile := \<lparr>unread = newline # rest, eofbit = False, failbit = False\<rparr>\<rparr>) =
   Some (Returns (st'\<lparr>ifile := \<lparr>unread = rest, eofbit = False, failbit = False\<rparr>,
                       sline := []\<rparr>))"
proof
  show "curve_scan_loop lib
     (st\<lparr>ifile := \<lparr>unread = newline # rest, eofbit = False, failbit = False\<rparr>\<rparr>) =
   curve_scan_loop lib
     (st\<lparr>ifile := \<lparr>unread = rest, eofbit = False, failbit = False\<rparr>, sline := []\<rparr>)"
    by (subst curve_scan_loop_empty) (simp_all add: getline_def good_def)
  show "surf_scan_loop lib
     (st'\<lparr>ifile := \<lparr>unread = newline # rest, eofbit = False, failbit = False\<rparr>\<rparr>) =
   Some (Returns (st'\<lparr>ifile := \<lparr>unread = rest, eofbit = False, failbit = False\<rparr>,
                       sline := []\<rparr>))"
    by (subst surf_scan_loop_empty) (simp_all add: getline_def good_def)
qed

section \<open>Writing a surface without control points\<close>

text \<open>
  Claim C9: for a surface whose grid of control points has no row or no column,
  \<^verbatim>\<open>surfaceSaveOBJ\<close> returns normally and the file it has opened stays empty.
\<close>

theorem surfaceSaveOBJ_empty_grid:
  "rows ctrlPts = 0 \<or> cols ctrlPts = 0 \<Longrightarrow>
   surfaceSaveOBJ lib deg_u' deg_v' knots_u knots_v ctrlPts weights rational' = Returns []"
  by (simp add: surfaceSaveOBJ_def)

theorem surfaceSaveOBJ_empty_grid_witness:
  "(rows \<lparr>rows = 2, cols = 0, cells = ([] :: int vec3 list)\<rparr> = 0
    \<or> cols \<lparr>rows = 2, cols = 0, cells = ([] :: int vec3 list)\<rparr> = 0)
   \<and> surfaceSaveOBJ dec_lib 1 1 [0, 0, 1, 1] [0, 1] \<lparr>rows = 2, cols = 0, cells = []\<rparr>
       \<lparr>rows = 2, cols = 0, cells = []\<rparr> False = Returns []"
  using surfaceSaveOBJ_empty_grid
    [of "\<lparr>rows = 2, cols = 0, cells = []\<rparr>" dec_lib 1 1 "[0, 0, 1, 1]" "[0, 1]"
        "\<lparr>rows = 2, cols = 0, cells = []\<rparr>" False]
  by simp

section \<open>Reading a field\<close>




lemma sentry_spaces:
  "list_all isspace (unread s) \<Longrightarrow> failbit (fst (sentry s)) \<and> \<not> snd (sentry s)"
  by (auto simp: sentry_def Let_def dropWhile_eq_Nil_conv list_all_iff)

lemma extract_num_spaces:
  "list_all isspace (unread s) \<Longrightarrow>
   failbit (fst (extract_num get s old)) \<and> snd (extract_num get s old) = old"
  using sentry_spaces [of s]
  by (cases "sentry s") (auto simp: extract_num_def)


text \<open>Decimal literals are numeric tokens of the decimal library.\<close>

lemma no_digit_ahead:
  "r = [] \<or> isspace (hd r) \<Longrightarrow> takeWhile is_digit r = [] \<and> dropWhile is_digit r = r"
  by (cases r) (auto simp: isspace_def is_digit_def)

lemma dec_numeric_token:
  assumes "ds \<noteq> []" "list_all is_digit ds"
  shows "numeric_token dec_get ds (int (dec_val ds))"
proof -
  have "\<not> isspace (hd ds)"
    using assms by (cases ds) (auto simp: isspace_def is_digit_def)
  moreover have "dec_get (ds @ r) = (int (dec_val ds), True, r)" if "r = [] \<or> isspace (hd r)" for r
  proof -
    have "takeWhile is_digit (ds @ r) = ds" "dropWhile is_digit (ds @ r) = r"
      using assms no_digit_ahead [OF that]
      by (simp_all add: takeWhile_append2 dropWhile_append2 list_all_iff)
    then show ?thesis
      using assms by (simp add: dec_get_def)
  qed
  ultimately show ?thesis
    using assms by (simp add: numeric_token_def)
qed

section \<open>The vertex record\<close>

lemma extract_num_gap:
  assumes "numeric_token get t v" "r = [] \<or> isspace (hd r)" "list_all isspace g"
  shows "extract_num get \<lparr>unread = g @ t @ r, eofbit = False, failbit = False\<rparr> old
         = (\<lparr>unread = r, eofbit = (r = []), failbit = False\<rparr>, v)"
proof -
  from assms(1) obtain c cs where t: "t = c # cs" "\<not> isspace c"
    by (cases t) (auto simp: numeric_token_def)
  have "get (t @ r) = (v, True, r)"
    using assms(1,2) by (auto simp: numeric_token_def)
  moreover have "dropWhile isspace (g @ t @ r) = t @ r"
    using assms(3) t by (simp add: dropWhile_append2 list_all_iff)
  ultimately show ?thesis
    using t by (simp add: extract_num_def sentry_def good_def Let_def)
qed

lemma spaced_Nil: "spaced [] [] = []"
  by (simp add: spaced_def)

lemma spaced_Cons: "spaced (g # gaps) (t # ts) = g @ t @ spaced gaps ts"
  by (simp add: spaced_def)

lemma spaced_head:
  assumes "length gaps = length ts" "\<forall>g\<in>set gaps. g \<noteq> [] \<and> list_all isspace g"
    "rest = [] \<or> isspace (hd rest)"
  shows "spaced gaps ts @ rest = [] \<or> isspace (hd (spaced gaps ts @ rest))"
proof (cases ts)
  case Nil
  then show ?thesis
    using assms by (simp add: spaced_Nil)
next
  case (Cons t ts')
  then obtain g gaps' where g: "gaps = g # gaps'"
    using assms(1) by (cases gaps) auto
  then obtain c cs where "g = c # cs" "isspace c"
    using assms(2) by (cases g) auto
  then show ?thesis
    by (simp add: Cons g spaced_Cons)
qed

text \<open>The loop of the \<^verbatim>\<open>v\<close> record on numbers that stand each after some white space:
  the coordinate at \<open>k\<close> is the number read for it, or else what it was.\<close>

lemma read_coords_spaced:
  assumes "list_all2 (numeric_token get) ts vs" "length gaps = length ts"
    "\<forall>g\<in>set gaps. g \<noteq> [] \<and> list_all isspace g"
    "index + length ts \<le> 4" "index + length ts < 4 \<longrightarrow> list_all isspace rest"
    "rest = [] \<or> isspace (hd rest)"
    "\<not> failbit s" "unread s = spaced gaps ts @ rest" "eofbit s \<longrightarrow> unread s = []"
    "k < length fc"
  shows "snd (read_coords get s fc index) ! k =
         (if index \<le> k \<and> k < index + length vs then vs ! (k - index) else fc ! k)"
  using assms
proof (induction ts arbitrary: gaps vs s fc index)
  case Nil
  show ?case
  proof (cases "index \<le> 3")
    case True
    then have sp: "list_all isspace (unread s)"
      using Nil.prems by (simp add: spaced_Nil)
    show ?thesis
      using Nil.prems True extract_num_spaces [OF sp, of get "fc ! index"]
      by (subst read_coords.simps) (auto simp: read_coords.simps split: prod.splits)
  next
    case False
    then show ?thesis
      using Nil.prems by (subst read_coords.simps) auto
  qed
next
  case (Cons t ts)
  then obtain v vs' where vs:
    "vs = v # vs'" "numeric_token get t v" "list_all2 (numeric_token get) ts vs'"
    by (auto simp: list_all2_Cons1)
  from Cons.prems(2) obtain g gaps' where gaps: "gaps = g # gaps'" "length gaps' = length ts"
    by (cases gaps) auto
  have g: "list_all isspace g" and gs: "\<forall>g\<in>set gaps'. g \<noteq> [] \<and> list_all isspace g"
    using Cons.prems(3) gaps by simp_all
  from vs(2) have "t \<noteq> []"
    by (simp add: numeric_token_def)
  then have "unread s \<noteq> []"
    using Cons.prems(8) by (simp add: gaps spaced_Cons)
  then have s: "s = \<lparr>unread = g @ t @ (spaced gaps' ts @ rest), eofbit = False, failbit = False\<rparr>"
    using Cons.prems(7,8,9) by (cases s) (auto simp: gaps spaced_Cons)
  note hd = spaced_head [OF gaps(2) gs Cons.prems(6)]
  note ex = extract_num_gap [OF vs(2) hd g, of "fc ! index"]
  have True: "index \<le> 3"
    using Cons.prems(4) by simp
  let ?s' = "\<lparr>unread = spaced gaps' ts @ rest, eofbit = (spaced gaps' ts @ rest = []),
              failbit = False\<rparr>"
  have step: "read_coords get s fc index = read_coords get ?s' (fc[index := v]) (index + 1)"
    using True ex by (subst read_coords.simps) (simp add: s)
  have "snd (read_coords get ?s' (fc[index := v]) (index + 1)) ! k =
       (if index + 1 \<le> k \<and> k < index + 1 + length vs'
        then vs' ! (k - (index + 1)) else fc[index := v] ! k)"
    by (rule Cons.IH [OF vs(3) gaps(2) gs _ _ Cons.prems(6)]) (use Cons.prems in auto)
  then show ?case
    using True Cons.prems(10) unfolding step vs
    by (auto simp: nth_list_update nth_Cons')
qed

lemma read_v_spaced:
  assumes "list_all2 (numeric_token (get_double lib)) ts vs" "length gaps = length ts"
    "\<forall>g\<in>set gaps. g \<noteq> [] \<and> list_all isspace g"
    "length ts \<le> 4" "length ts < 4 \<longrightarrow> list_all isspace rest"
    "rest = [] \<or> isspace (hd rest)"
    "\<not> failbit (ssline st)" "unread (ssline st) = spaced gaps ts @ rest"
    "eofbit (ssline st) \<longrightarrow> unread (ssline st) = []"
  shows "ctrl_pts_buf (read_v lib st) =
           ctrl_pts_buf st @
             [(double_to_T lib (coord_or_default lib vs 0),
               double_to_T lib (coord_or_default lib vs 1),
               double_to_T lib (coord_or_default lib vs 2))]"
    and "weights_buf (read_v lib st) =
           weights_buf st @ [double_to_T lib (coord_or_default lib vs 3)]"
proof -
  let ?fc = "[double_zero lib, double_zero lib, double_zero lib, double_one lib]"
  have nth: "snd (read_coords (get_double lib) (ssline st) ?fc 0) ! k = coord_or_default lib vs k"
    if "k < 4" for k
  proof -
    have "snd (read_coords (get_double lib) (ssline st) ?fc 0) ! k =
            (if 0 \<le> k \<and> k < 0 + length vs then vs ! (k - 0) else ?fc ! k)"
      by (rule read_coords_spaced [OF assms(1-3) _ _ assms(6-9)]) (use assms(4,5) that in auto)
    moreover have "?fc ! k = (if k = 3 then double_one lib else double_zero lib)"
      using that by (auto simp: nth_Cons' )
    ultimately show ?thesis
      using that by (auto simp: coord_or_default_def)
  qed
  show "ctrl_pts_buf (read_v lib st) =
           ctrl_pts_buf st @
             [(double_to_T lib (coord_or_default lib vs 0),
               double_to_T lib (coord_or_default lib vs 1),
               double_to_T lib (coord_or_default lib vs 2))]"
    using nth [of 0] nth [of 1] nth [of 2]
    by (cases "read_coords (get_double lib) (ssline st) ?fc 0") (simp add: read_v_def)
  show "weights_buf (read_v lib st) =
           weights_buf st @ [double_to_T lib (coord_or_default lib vs 3)]"
    using nth [of 3]
    by (cases "read_coords (get_double lib) (ssline st) ?fc 0") (simp add: read_v_def)
qed

text \<open>
  Claim C4, as stated: every \<^verbatim>\<open>v\<close> record with exactly three numeric fields appends a
  vertex of weight 1. It fails when a word follows the three numbers. In
  \<open>word_after_v_file\<close> and \<open>word_after_v_surface_file\<close> the record is \<^verbatim>\<open>v 1 2 3 x\<close>: the
  fourth extraction meets \<^verbatim>\<open>x\<close>, fails and stores 0 in place of the default, and both
  readers return the vertex with the weight 0.
\<close>

theorem v_record_word_after_three_fields:
  "curveReadOBJ dec_lib unseen ''c.obj'' (Some word_after_v_file) 0 False =
     Some (Returns \<lparr>c_deg = 0, c_knots = [0, 1], c_ctrlPts = [(1, 2, 3)], c_weights = [0],
                    c_rational = False\<rparr>)
   \<and> surfaceReadOBJ dec_lib unseen ''s.obj'' (Some word_after_v_surface_file) 0 0 False =
     Some (Returns \<lparr>s_deg_u = 0, s_deg_v = 0, s_knots_u = [0, 1], s_knots_v = [0, 1],
                    s_ctrlPts = \<lparr>rows = 1, cols = 1, cells = [(1, 2, 3)]\<rparr>,
                    s_weights = \<lparr>rows = 1, cols = 1, cells = [0]\<rparr>,
                    s_rational = False\<rparr>)"
  by (simp add: word_after_v_file_def word_after_v_surface_file_def unseen_def stream_eval
        dec_eval record_eval curve_eval surf_eval replicate_num update_num)

text \<open>
  Claim C4, amended: a \<^verbatim>\<open>v\<close> record is handled alike by \<^verbatim>\<open>curveReadOBJ\<close> and
  \<^verbatim>\<open>surfaceReadOBJ\<close>. Let the line hold, after the keyword, at most four numeric fields
  \<open>ts\<close> of values \<open>vs\<close>, each after some white space, and after them nothing but white
  space when they are fewer than four, and anything that is apart from the fourth when
  they are four. Then the vertex appended to the pool has the numbers read as its first
  coordinates and, for each coordinate that has no field, 0 as its position and 1 as its
  weight. In particular three numbers append a vertex of weight 1, and no number at all
  appends the origin. A line with a field among its first four that is no number is left
  out.
\<close>

theorem v_record_fields_and_defaults:
  assumes "list_all2 (numeric_token (get_double lib)) ts vs" and "length gaps = length ts"
    and "\<forall>g\<in>set gaps. g \<noteq> [] \<and> list_all isspace g"
    and "length ts \<le> 4" and "length ts < 4 \<longrightarrow> list_all isspace rest"
    and "rest = [] \<or> isspace (hd rest)"
    and "start c = ''v''" and "\<not> failbit (ssline c)"
    and "unread (ssline c) = spaced gaps ts @ rest"
    and "eofbit (ssline c) \<longrightarrow> unread (ssline c) = []"
    and "start s = ''v''" and "\<not> failbit (ssline s)"
    and "unread (ssline s) = spaced gaps ts @ rest"
    and "eofbit (ssline s) \<longrightarrow> unread (ssline s) = []"
  shows "(\<exists>c'. curve_record lib c = Some (Returns (c', Continue))
            \<and> ctrl_pts_buf c' =
                ctrl_pts_buf c @
                  [(double_to_T lib (coord_or_default lib vs 0),
                    double_to_T lib (coord_or_default lib vs 1),
                    double_to_T lib (coord_or_default lib vs 2))]
            \<and> weights_buf c' = weights_buf c @ [double_to_T lib (coord_or_default lib vs 3)])
       \<and> (\<exists>s'. surf_record lib s = Some (Returns (s', Continue))
            \<and> ctrl_pts_buf s' =
                ctrl_pts_buf s @
                  [(double_to_T lib (coord_or_default lib vs 0),
                    double_to_T lib (coord_or_default lib vs 1),
                    double_to_T lib (coord_or_default lib vs 2))]
            \<and> weights_buf s' = weights_buf s @ [double_to_T lib (coord_or_default lib vs 3)])
       \<and> (length vs = 3 \<longrightarrow> coord_or_default lib vs 3 = double_one lib)
       \<and> (vs = [] \<longrightarrow> coord_or_default lib vs 0 = double_zero lib
                      \<and> coord_or_default lib vs 1 = double_zero lib
                      \<and> coord_or_default lib vs 2 = double_zero lib)"
proof -
  have "curve_record lib c = Some (Returns (read_v lib c, Continue))"
    using assms(7) by (simp add: curve_record_def)
  moreover have "surf_record lib s = Some (Returns (read_v lib s, Continue))"
    using assms(11) by (simp add: surf_record_def)
  ultimately show ?thesis
    using read_v_spaced [OF assms(1-6) assms(8-10)] read_v_spaced [OF assms(1-6) assms(12-14)]
    by (simp add: coord_or_default_def)
qed

theorem v_record_fields_and_defaults_witness:
  "(\<exists>c'. curve_record dec_lib (at_v_record (curve_init unseen [] 0 False)) =
            Some (Returns (c', Continue))
         \<and> ctrl_pts_buf c' = [(1, 2, 3)] \<and> weights_buf c' = [1])
   \<and> (\<exists>s'. surf_record dec_lib (at_v_record (surf_init unseen [] 0 0 False)) =
            Some (Returns (s', Continue))
         \<and> ctrl_pts_buf s' = [(1, 2, 3)] \<and> weights_buf s' = [1])"
proof -
  have toks: "list_all2 (numeric_token (get_double dec_lib)) [''1'', ''2'', ''3''] [1, 2, 3]"
    using dec_numeric_token [of "''1''"] dec_numeric_token [of "''2''"]
      dec_numeric_token [of "''3''"]
    by (simp add: dec_lib_def is_digit_def dec_val_def digit_val_def)
  have gaps: "length ['' '', '' '', '' ''] = length [''1'', ''2'', ''3'']"
    "\<forall>g\<in>set ['' '', '' '', '' '']. g \<noteq> [] \<and> list_all isspace g"
    by (simp_all add: isspace_def)
  have rest: "length [''1'', ''2'', ''3''] \<le> 4"
    "length [''1'', ''2'', ''3''] < 4 \<longrightarrow> list_all isspace []" "[] = [] \<or> isspace (hd [])"
    by simp_all
  have c: "start (at_v_record (curve_init unseen [] 0 False :: int curve_scan)) = ''v''"
    "\<not> failbit (ssline (at_v_record (curve_init unseen [] 0 False :: int curve_scan)))"
    "unread (ssline (at_v_record (curve_init unseen [] 0 False :: int curve_scan))) =
      spaced ['' '', '' '', '' ''] [''1'', ''2'', ''3''] @ []"
    "eofbit (ssline (at_v_record (curve_init unseen [] 0 False :: int curve_scan))) \<longrightarrow>
      unread (ssline (at_v_record (curve_init unseen [] 0 False :: int curve_scan))) = []"
    by (simp_all add: at_v_record_def spaced_def)
  have s: "start (at_v_record (surf_init unseen [] 0 0 False :: int surf_scan)) = ''v''"
    "\<not> failbit (ssline (at_v_record (surf_init unseen [] 0 0 False :: int surf_scan)))"
    "unread (ssline (at_v_record (surf_init unseen [] 0 0 False :: int surf_scan))) =
      spaced ['' '', '' '', '' ''] [''1'', ''2'', ''3''] @ []"
    "eofbit (ssline (at_v_record (surf_init unseen [] 0 0 False :: int surf_scan))) \<longrightarrow>
      unread (ssline (at_v_record (surf_init unseen [] 0 0 False :: int surf_scan))) = []"
    by (simp_all add: at_v_record_def spaced_def)
  show ?thesis
    using v_record_fields_and_defaults [OF toks gaps rest c s]
    by (simp add: coord_or_default_def dec_lib_def at_v_record_def curve_init_def surf_init_def)
qed

section \<open>The parm record of a curve\<close>

lemma parm_record_marks_seen:
  assumes "start st = ''parm''" "curve_record lib st = Some (Returns (st', c))"
  shows "seen_parm (parsed st')"
  using assms
  by (auto simp: curve_record_def and_then_def
           split: prod.splits option.splits outcome.splits if_splits)

lemma parm_record_other_axis:
  assumes "start st = ''parm''" "snd (extract_string (ssline st) (start st)) \<noteq> ''u''"
  shows "\<exists>st'. curve_record lib st = Some (Returns (st', Continue)) \<and> seen_parm (parsed st')
     \<and> temp_knots st' = temp_knots st"
  using assms
  by (auto simp: curve_record_def and_then_def
           split: prod.splits option.splits outcome.splits if_splits)

lemma parm_v_file_scan:
  "\<exists>st. curve_scan_loop dec_lib (curve_init unseen parm_v_file 0 False) = Some (Returns st)
     \<and> temp_knots st = ([] :: int list) \<and> required_check ''curv'' (parsed st) = None"
  by (simp add: parm_v_file_def unseen_def stream_eval dec_eval record_eval curve_eval)

text \<open>
  Claim C10: in \<^verbatim>\<open>curveReadOBJ\<close> a record with the keyword \<^verbatim>\<open>parm\<close> that is processed
  to its end marks the section \<^verbatim>\<open>parm\<close> as seen, whatever its axis token; when the axis
  token is not \<^verbatim>\<open>u\<close> the record is always processed to its end and appends no knot. So the
  file \<open>parm_v_file\<close>, whose only \<^verbatim>\<open>parm\<close> record is for \<^verbatim>\<open>v\<close>, passes the check of the
  required records with no knot collected.
\<close>

theorem parm_seen_whatever_the_axis:
  "(start st = ''parm'' \<longrightarrow>
      (\<forall>st' c. curve_record lib st = Some (Returns (st', c)) \<longrightarrow> seen_parm (parsed st')))
   \<and> (start st = ''parm'' \<and> snd (extract_string (ssline st) (start st)) \<noteq> ''u'' \<longrightarrow>
        (\<exists>st'. curve_record lib st = Some (Returns (st', Continue)) \<and> seen_parm (parsed st')
           \<and> temp_knots st' = temp_knots st))
   \<and> (\<exists>st. curve_scan_loop dec_lib (curve_init unseen parm_v_file 0 False) = Some (Returns st)
        \<and> temp_knots st = ([] :: int list) \<and> required_check ''curv'' (parsed st) = None)"
  using parm_record_marks_seen [of st lib] parm_record_other_axis [of st lib] parm_v_file_scan
  by blast

theorem parm_seen_whatever_the_axis_witness:
  "start at_parm_v_record = ''parm''
   \<and> snd (extract_string (ssline at_parm_v_record) (start at_parm_v_record)) \<noteq> ''u''
   \<and> (\<exists>st'. curve_record dec_lib at_parm_v_record = Some (Returns (st', Continue))
        \<and> seen_parm (parsed st') \<and> temp_knots st' = temp_knots at_parm_v_record)"
proof -
  have h: "start at_parm_v_record = ''parm''"
    "snd (extract_string (ssline at_parm_v_record) (start at_parm_v_record)) \<noteq> ''u''"
    by (simp_all add: at_parm_v_record_def curve_init_def stream_eval)
  show ?thesis
    using h parm_seen_whatever_the_axis [of at_parm_v_record dec_lib]
    by blast
qed

section \<open>Indices that resolve to no vertex\<close>

text \<open>
  Claim C3 says that an index outside the vertex pool, or an index list shorter than the
  number of control points, makes the readers fail with an error. The code checks neither:
  \<^verbatim>\<open>ctrl_pts_buf[indices[num] - 1]\<close> is an unchecked \<^verbatim>\<open>operator[]\<close>, and the
  \<^verbatim>\<open>assert\<close> before it tests the destination only. On \<open>bad_index_file\<close> (index 5, one
  vertex), on \<open>no_index_file\<close> (no index, one control point) and on
  \<open>bad_index_surface_file\<close> the readers read outside a vector, whatever the flags of
  \<^verbatim>\<open>ToParse\<close> held at the start.
\<close>

theorem unchecked_index_reads_out_of_bounds:
  "curveReadOBJ dec_lib garbage ''c.obj'' (Some bad_index_file) 0 False =
     Some (Undefined Out_of_bounds_read)
   \<and> curveReadOBJ dec_lib garbage ''c.obj'' (Some no_index_file) 0 False =
     Some (Undefined Out_of_bounds_read)
   \<and> surfaceReadOBJ dec_lib garbage ''s.obj'' (Some bad_index_surface_file) 0 0 False =
     Some (Undefined Out_of_bounds_read)"
  by (simp add: bad_index_file_def no_index_file_def bad_index_surface_file_def
        stream_eval dec_eval record_eval curve_eval surf_eval replicate_num update_num)

section \<open>The length of the knot vector\<close>

text \<open>
  Claim C8 says that a curve read with success has as many knots as control points, plus
  its degree, plus 1. The number of control points is computed as
  \<^verbatim>\<open>num_knots - deg - 1\<close> with an unsigned degree, modulo \<open>2^32\<close>: on \<open>huge_degree_file\<close>
  (degree 4294967295, no knot) it is 0, and the read succeeds with a curve that has no knot,
  no control point and the degree 4294967295.
\<close>

theorem huge_degree_breaks_knot_count:
  "curveReadOBJ dec_lib garbage ''c.obj'' (Some huge_degree_file) 0 False =
     Some (Returns \<lparr>c_deg = 4294967295, c_knots = [], c_ctrlPts = [], c_weights = [],
                    c_rational = False\<rparr>)
   \<and> length ([] :: int list) \<noteq> length ([] :: int vec3 list) + unat (4294967295 :: 32 word) + 1"
  by (simp add: huge_degree_file_def stream_eval dec_eval record_eval curve_eval)

section \<open>The check of the required records\<close>

text \<open>
  Claim C2 says that a file in which one of the records \<^verbatim>\<open>cstype\<close>, \<^verbatim>\<open>deg\<close>,
  \<^verbatim>\<open>curv\<close> or \<^verbatim>\<open>parm\<close> was never parsed is rejected with an error naming it. The flags
  the check reads are never initialised (\<^verbatim>\<open>ToParse parsed;\<close>): when they happen to start
  set, \<open>no_deg_file\<close>, which has no \<^verbatim>\<open>deg\<close> record, is read with success, the degree being
  the value the caller's variable held.
\<close>

theorem missing_deg_not_detected:
  "curveReadOBJ dec_lib all_seen ''c.obj'' (Some no_deg_file) 0 False =
     Some (Returns \<lparr>c_deg = 0, c_knots = [0], c_ctrlPts = [], c_weights = [],
                    c_rational = False\<rparr>)"
  by (simp add: no_deg_file_def all_seen_def stream_eval dec_eval record_eval curve_eval)

section \<open>The order of the control points of a surface\<close>

lemma cell_index_inject:
  fixes c :: nat
  assumes "j < c" "j' < c" "i * c + j = i' * c + j'"
  shows "i = i' \<and> j = j'"
proof -
  from assms(3) have "(i * c + j) div c = (i' * c + j') div c"
    by simp
  with assms(1,2) have "i = i'"
    by simp
  then show ?thesis
    using assms(3) by simp
qed

lemma cell_index_bound:
  fixes c :: nat
  assumes "i < r" "j < c"
  shows "i * c + j < r * c"
proof -
  have "i * c + j < i * c + c"
    using assms by simp
  also have "\<dots> = (i + 1) * c"
    by simp
  also have "\<dots> \<le> r * c"
    using assms by (intro mult_le_mono1) simp
  finally show ?thesis .
qed

lemma array2_set_wf [simp]:
  "array2_wf (array2_set a i j v) = array2_wf a"
  "rows (array2_set a i j v) = rows a"
  "cols (array2_set a i j v) = cols a"
  by (simp_all add: array2_wf_def array2_set_def)

lemma array2_at_set:
  assumes "array2_wf a" "i < rows a" "j < cols a" "i' < rows a" "j' < cols a"
  shows "array2_at (array2_set a i j v) i' j' =
           (if i' = i \<and> j' = j then Some v else array2_at a i' j')"
proof -
  have b: "i * cols a + j < length (cells a)" "i' * cols a + j' < length (cells a)"
    using assms cell_index_bound by (auto simp: array2_wf_def)
  show ?thesis
    using assms b cell_index_inject [of j "cols a" j' i i']
    by (auto simp: array2_at_def array2_set_def nth_list_update)
qed

lemma array2_resize_wf [simp]:
  "array2_wf (array2_resize r c v)"
  "rows (array2_resize r c v) = r"
  "cols (array2_resize r c v) = c"
  by (simp_all add: array2_wf_def array2_resize_def)

text \<open>The inner loop, at column \<open>j\<close> from row \<open>i\<close> on, fills the cells \<open>(a, j)\<close> with
  \<open>i \<le> a\<close> from the indices at \<open>num\<close>, \<open>num + 1\<close>, and so on.\<close>

lemma surf_fill_u_cells:
  assumes "surf_fill_u pool wpool idx num_cp_u j i num ctrlPts weights = Returns (num', ctrlPts', weights')"
    and "0 \<le> i" "i \<le> num_cp_u" "0 \<le> j" "nat j < cols ctrlPts" "rows ctrlPts = nat num_cp_u"
    and "array2_wf ctrlPts" "array2_wf weights"
    and "rows weights = rows ctrlPts" "cols weights = cols ctrlPts"
  shows "num' = num + nat (num_cp_u - i)
       \<and> array2_wf ctrlPts' \<and> array2_wf weights'
       \<and> rows ctrlPts' = rows ctrlPts \<and> cols ctrlPts' = cols ctrlPts
       \<and> rows weights' = rows ctrlPts \<and> cols weights' = cols ctrlPts
       \<and> (\<forall>a b. a < rows ctrlPts \<and> b < cols ctrlPts \<longrightarrow>
             array2_at ctrlPts' a b =
               (if b = nat j \<and> nat i \<le> a
                then Some (pool ! nat (idx ! (num + (a - nat i)) - 1))
                else array2_at ctrlPts a b)
           \<and> array2_at weights' a b =
               (if b = nat j \<and> nat i \<le> a
                then Some (wpool ! nat (idx ! (num + (a - nat i)) - 1))
                else array2_at weights a b))"
  using assms
proof (induction pool wpool idx num_cp_u j i num ctrlPts weights rule: surf_fill_u.induct)
  case (1 pool wpool idx num_cp_u j i num ctrlPts weights)
  show ?case
  proof (cases "i < num_cp_u")
    case False
    with "1.prems" show ?thesis
      by (subst (asm) surf_fill_u.simps) auto
  next
    case True
    let ?k = "nat (idx ! num - 1)"
    let ?c = "array2_set ctrlPts (nat i) (nat j) (pool ! ?k)"
    let ?w = "array2_set weights (nat i) (nat j) (wpool ! ?k)"
    from "1.prems"(1) True have ok:
      "0 \<le> i \<and> 0 \<le> j \<and> nat i < rows ctrlPts \<and> nat j < cols ctrlPts"
      "num < length idx" "0 \<le> idx ! num - 1 \<and> ?k < length pool" "?k < length wpool"
      and rec: "surf_fill_u pool wpool idx num_cp_u j (i + 1) (num + 1) ?c ?w
                  = Returns (num', ctrlPts', weights')"
      by (subst (asm) surf_fill_u.simps; simp split: if_splits)+
    have IH: "num' = num + 1 + nat (num_cp_u - (i + 1))
       \<and> array2_wf ctrlPts' \<and> array2_wf weights'
       \<and> rows ctrlPts' = rows ?c \<and> cols ctrlPts' = cols ?c
       \<and> rows weights' = rows ?c \<and> cols weights' = cols ?c
       \<and> (\<forall>a b. a < rows ?c \<and> b < cols ?c \<longrightarrow>
             array2_at ctrlPts' a b =
               (if b = nat j \<and> nat (i + 1) \<le> a
                then Some (pool ! nat (idx ! (num + 1 + (a - nat (i + 1))) - 1))
                else array2_at ?c a b)
           \<and> array2_at weights' a b =
               (if b = nat j \<and> nat (i + 1) \<le> a
                then Some (wpool ! nat (idx ! (num + 1 + (a - nat (i + 1))) - 1))
                else array2_at ?w a b))"
      using "1.prems" True ok
      by (intro "1.IH" [OF True _ _ _ _ rec]) auto
    have cells: "array2_at ctrlPts' a b =
               (if b = nat j \<and> nat i \<le> a
                then Some (pool ! nat (idx ! (num + (a - nat i)) - 1))
                else array2_at ctrlPts a b)
           \<and> array2_at weights' a b =
               (if b = nat j \<and> nat i \<le> a
                then Some (wpool ! nat (idx ! (num + (a - nat i)) - 1))
                else array2_at weights a b)"
      if ab: "a < rows ctrlPts" "b < cols ctrlPts" for a b
    proof -
      have setc: "array2_at ?c a b = (if a = nat i \<and> b = nat j then Some (pool ! ?k) else array2_at ctrlPts a b)"
        using ab ok "1.prems" by (intro array2_at_set) auto
      have setw: "array2_at ?w a b = (if a = nat i \<and> b = nat j then Some (wpool ! ?k) else array2_at weights a b)"
        using ab ok "1.prems" by (intro array2_at_set) auto
      have idx: "nat (i + 1) \<le> a \<Longrightarrow> num + 1 + (a - nat (i + 1)) = num + (a - nat i)"
        using ok by linarith
      have cases: "nat i \<le> a \<longleftrightarrow> a = nat i \<or> nat (i + 1) \<le> a"
        using ok by linarith
      from IH ab have
        "array2_at ctrlPts' a b =
               (if b = nat j \<and> nat (i + 1) \<le> a
                then Some (pool ! nat (idx ! (num + 1 + (a - nat (i + 1))) - 1))
                else array2_at ?c a b)"
        "array2_at weights' a b =
               (if b = nat j \<and> nat (i + 1) \<le> a
                then Some (wpool ! nat (idx ! (num + 1 + (a - nat (i + 1))) - 1))
                else array2_at ?w a b)"
        by simp_all
      then show ?thesis
        unfolding setc setw using idx cases ok by (auto simp: nat_add_distrib)
    qed
    have "num + 1 + nat (num_cp_u - (i + 1)) = num + nat (num_cp_u - i)"
      using True by linarith
    with IH cells show ?thesis
      by simp
  qed
qed


text \<open>The outer loop, from column \<open>j\<close> on, with \<open>num\<close> at \<open>j * num_cp_u\<close>.\<close>

lemma surf_fill_v_cells:
  assumes "surf_fill_v pool wpool idx num_cp_u num_cp_v j num ctrlPts weights = Returns (ctrlPts', weights')"
    and "0 \<le> j" "j \<le> num_cp_v" "0 \<le> num_cp_u" "num = nat j * nat num_cp_u"
    and "rows ctrlPts = nat num_cp_u" "cols ctrlPts = nat num_cp_v"
    and "array2_wf ctrlPts" "array2_wf weights"
    and "rows weights = rows ctrlPts" "cols weights = cols ctrlPts"
  shows "rows ctrlPts' = rows ctrlPts \<and> cols ctrlPts' = cols ctrlPts
       \<and> rows weights' = rows ctrlPts \<and> cols weights' = cols ctrlPts
       \<and> (\<forall>a b. a < rows ctrlPts \<and> b < cols ctrlPts \<longrightarrow>
             array2_at ctrlPts' a b =
               (if nat j \<le> b
                then Some (pool ! nat (idx ! (b * nat num_cp_u + a) - 1))
                else array2_at ctrlPts a b)
           \<and> array2_at weights' a b =
               (if nat j \<le> b
                then Some (wpool ! nat (idx ! (b * nat num_cp_u + a) - 1))
                else array2_at weights a b))"
  using assms
proof (induction pool wpool idx num_cp_u num_cp_v j num ctrlPts weights rule: surf_fill_v.induct)
  case (1 pool wpool idx num_cp_u num_cp_v j num ctrlPts weights)
  show ?case
  proof (cases "j < num_cp_v")
    case False
    with "1.prems" show ?thesis
      by (subst (asm) surf_fill_v.simps) auto
  next
    case True
    from "1.prems"(1) True obtain num1 c1 w1 where
      inner: "surf_fill_u pool wpool idx num_cp_u j 0 num ctrlPts weights = Returns (num1, c1, w1)"
      and rec: "surf_fill_v pool wpool idx num_cp_u num_cp_v (j + 1) num1 c1 w1 = Returns (ctrlPts', weights')"
      by (subst (asm) surf_fill_v.simps) (auto split: outcome.splits)
    have row: "num1 = num + nat (num_cp_u - 0)
       \<and> array2_wf c1 \<and> array2_wf w1
       \<and> rows c1 = rows ctrlPts \<and> cols c1 = cols ctrlPts
       \<and> rows w1 = rows ctrlPts \<and> cols w1 = cols ctrlPts
       \<and> (\<forall>a b. a < rows ctrlPts \<and> b < cols ctrlPts \<longrightarrow>
             array2_at c1 a b =
               (if b = nat j \<and> nat 0 \<le> a
                then Some (pool ! nat (idx ! (num + (a - nat 0)) - 1))
                else array2_at ctrlPts a b)
           \<and> array2_at w1 a b =
               (if b = nat j \<and> nat 0 \<le> a
                then Some (wpool ! nat (idx ! (num + (a - nat 0)) - 1))
                else array2_at weights a b))"
      using "1.prems" True by (intro surf_fill_u_cells [OF inner]) auto
    have num1: "num1 = nat (j + 1) * nat num_cp_u"
      using row "1.prems" by (simp add: nat_add_distrib)
    have IH: "rows ctrlPts' = rows c1 \<and> cols ctrlPts' = cols c1
       \<and> rows weights' = rows c1 \<and> cols weights' = cols c1
       \<and> (\<forall>a b. a < rows c1 \<and> b < cols c1 \<longrightarrow>
             array2_at ctrlPts' a b =
               (if nat (j + 1) \<le> b
                then Some (pool ! nat (idx ! (b * nat num_cp_u + a) - 1))
                else array2_at c1 a b)
           \<and> array2_at weights' a b =
               (if nat (j + 1) \<le> b
                then Some (wpool ! nat (idx ! (b * nat num_cp_u + a) - 1))
                else array2_at w1 a b))"
      using "1.prems" True row num1
      by (intro "1.IH" [OF True inner refl refl rec]) auto
    have cells: "array2_at ctrlPts' a b =
               (if nat j \<le> b
                then Some (pool ! nat (idx ! (b * nat num_cp_u + a) - 1))
                else array2_at ctrlPts a b)
           \<and> array2_at weights' a b =
               (if nat j \<le> b
                then Some (wpool ! nat (idx ! (b * nat num_cp_u + a) - 1))
                else array2_at weights a b)"
      if ab: "a < rows ctrlPts" "b < cols ctrlPts" for a b
    proof -
      have cases: "nat j \<le> b \<longleftrightarrow> b = nat j \<or> nat (j + 1) \<le> b"
        using "1.prems"(2) by linarith
      have here: "b = nat j \<Longrightarrow> num + a = b * nat num_cp_u + a"
        using "1.prems" by simp
      show ?thesis
        using IH row ab cases here by auto
    qed
    with IH row show ?thesis
      by simp
  qed
qed


lemma surf_build_cells:
  assumes "surf_build lib st = Returns out"
    and "i < rows (s_ctrlPts out)" "j < cols (s_ctrlPts out)"
  shows "array2_at (s_ctrlPts out) i j =
           Some (ctrl_pts_buf st ! nat (indices st ! (j * rows (s_ctrlPts out) + i) - 1))
       \<and> array2_at (s_weights out) i j =
           Some (weights_buf st ! nat (indices st ! (j * rows (s_ctrlPts out) + i) - 1))"
proof -
  define nu where "nu = sint (word_of_nat (length (temp_uknots st)) - deg_u st - 1 :: 32 word)"
  define nv where "nv = sint (word_of_nat (length (temp_vknots st)) - deg_v st - 1 :: 32 word)"
  define z where "z = (T_zero lib, T_zero lib, T_zero lib)"
  from assms(1) obtain c w where
    nn: "0 \<le> nu" "0 \<le> nv"
    and fill: "surf_fill_v (ctrl_pts_buf st) (weights_buf st) (indices st) nu nv 0 0
                 (array2_resize (nat nu) (nat nv) z) (array2_resize (nat nu) (nat nv) (T_zero lib))
               = Returns (c, w)"
    and out: "s_ctrlPts out = c" "s_weights out = w"
    unfolding surf_build_def nu_def nv_def z_def
    by (auto simp: Let_def split: option.splits if_splits outcome.splits)
  have "rows c = rows (array2_resize (nat nu) (nat nv) z)
       \<and> cols c = cols (array2_resize (nat nu) (nat nv) z)
       \<and> rows w = rows (array2_resize (nat nu) (nat nv) z)
       \<and> cols w = cols (array2_resize (nat nu) (nat nv) z)
       \<and> (\<forall>a b. a < rows (array2_resize (nat nu) (nat nv) z)
                \<and> b < cols (array2_resize (nat nu) (nat nv) z) \<longrightarrow>
             array2_at c a b =
               (if nat 0 \<le> b
                then Some (ctrl_pts_buf st ! nat (indices st ! (b * nat nu + a) - 1))
                else array2_at (array2_resize (nat nu) (nat nv) z) a b)
           \<and> array2_at w a b =
               (if nat 0 \<le> b
                then Some (weights_buf st ! nat (indices st ! (b * nat nu + a) - 1))
                else array2_at (array2_resize (nat nu) (nat nv) (T_zero lib)) a b))"
    using nn by (intro surf_fill_v_cells [OF fill]) simp_all
  then show ?thesis
    using assms(2,3) out by simp
qed

lemma grid_file_read:
  "surfaceReadOBJ dec_lib unseen ''s.obj'' (Some grid_file) 0 0 False = Some (Returns grid_out)"
  by (simp add: grid_file_def grid_out_def unseen_def stream_eval dec_eval record_eval surf_eval
        replicate_num update_num)

lemma grid_out_cells:
  "array2_at (s_ctrlPts grid_out) 0 0 = Some (1, 1, 1)"
  "array2_at (s_ctrlPts grid_out) 1 0 = Some (2, 2, 2)"
  "array2_at (s_ctrlPts grid_out) 0 1 = Some (3, 3, 3)"
  "array2_at (s_ctrlPts grid_out) 1 1 = Some (4, 4, 4)"
  "array2_at (s_ctrlPts grid_out) 0 2 = Some (5, 5, 5)"
  "array2_at (s_ctrlPts grid_out) 1 2 = Some (6, 6, 6)"
  by (simp_all add: grid_out_def array2_at_def)

text \<open>
  Claim C6: \<^verbatim>\<open>surfaceReadOBJ\<close> takes the indices with \<open>u\<close> varying fastest: in the surface
  it builds, the control point at \<open>(i, j)\<close> is the vertex named by the index at position
  \<open>j * nU + i\<close> of the list, \<open>nU\<close> being the number of rows, and so is its weight. Indices
  count from 1. For the file \<open>grid_file\<close>, with \<open>nU = 2\<close>, \<open>nV = 3\<close> and the index list
  \<open>1 2 3 4 5 6\<close>, the grid has the vertices 1 and 2 at \<open>(0,0)\<close> and \<open>(1,0)\<close>, 3 and 4 at
  \<open>(0,1)\<close> and \<open>(1,1)\<close>, 5 and 6 at \<open>(0,2)\<close> and \<open>(1,2)\<close>.
\<close>

theorem surface_grid_u_fastest:
  "(surf_build lib st = Returns out \<and> i < rows (s_ctrlPts out) \<and> j < cols (s_ctrlPts out) \<longrightarrow>
      array2_at (s_ctrlPts out) i j =
        Some (ctrl_pts_buf st ! nat (indices st ! (j * rows (s_ctrlPts out) + i) - 1))
      \<and> array2_at (s_weights out) i j =
        Some (weights_buf st ! nat (indices st ! (j * rows (s_ctrlPts out) + i) - 1)))
   \<and> (\<exists>g. surfaceReadOBJ dec_lib unseen ''s.obj'' (Some grid_file) 0 0 False = Some (Returns g)
        \<and> rows (s_ctrlPts g) = 2 \<and> cols (s_ctrlPts g) = 3
        \<and> array2_at (s_ctrlPts g) 0 0 = Some (1, 1, 1)
        \<and> array2_at (s_ctrlPts g) 1 0 = Some (2, 2, 2)
        \<and> array2_at (s_ctrlPts g) 0 1 = Some (3, 3, 3)
        \<and> array2_at (s_ctrlPts g) 1 1 = Some (4, 4, 4)
        \<and> array2_at (s_ctrlPts g) 0 2 = Some (5, 5, 5)
        \<and> array2_at (s_ctrlPts g) 1 2 = Some (6, 6, 6))"
proof (intro conjI impI)
  assume "surf_build lib st = Returns out \<and> i < rows (s_ctrlPts out) \<and> j < cols (s_ctrlPts out)"
  then show "array2_at (s_ctrlPts out) i j =
        Some (ctrl_pts_buf st ! nat (indices st ! (j * rows (s_ctrlPts out) + i) - 1))"
    and "array2_at (s_weights out) i j =
        Some (weights_buf st ! nat (indices st ! (j * rows (s_ctrlPts out) + i) - 1))"
    using surf_build_cells [of lib st out i j] by simp_all
next
  show "\<exists>g. surfaceReadOBJ dec_lib unseen ''s.obj'' (Some grid_file) 0 0 False = Some (Returns g)
        \<and> rows (s_ctrlPts g) = 2 \<and> cols (s_ctrlPts g) = 3
        \<and> array2_at (s_ctrlPts g) 0 0 = Some (1, 1, 1)
        \<and> array2_at (s_ctrlPts g) 1 0 = Some (2, 2, 2)
        \<and> array2_at (s_ctrlPts g) 0 1 = Some (3, 3, 3)
        \<and> array2_at (s_ctrlPts g) 1 1 = Some (4, 4, 4)
        \<and> array2_at (s_ctrlPts g) 0 2 = Some (5, 5, 5)
        \<and> array2_at (s_ctrlPts g) 1 2 = Some (6, 6, 6)"
    using grid_file_read grid_out_cells by (simp add: grid_out_def)
qed

theorem surface_grid_u_fastest_witness:
  "surf_build dec_lib grid_scan = Returns grid_out
   \<and> 1 < rows (s_ctrlPts grid_out) \<and> 2 < cols (s_ctrlPts grid_out)
   \<and> array2_at (s_ctrlPts grid_out) 1 2 = Some (ctrl_pts_buf grid_scan ! 5)
   \<and> ctrl_pts_buf grid_scan ! 5 = (6, 6, 6)"
proof -
  have b: "surf_build dec_lib grid_scan = Returns grid_out"
    by (simp add: grid_scan_def grid_out_def all_seen_def surf_init_def open_stream_def dec_lib_def
          required_check_def surf_build_def surf_fill_u.simps surf_fill_v.simps
          array2_resize_def array2_set_def replicate_num update_num)
  have r: "1 < rows (s_ctrlPts grid_out)" "2 < cols (s_ctrlPts grid_out)"
    by (simp_all add: grid_out_def)
  have "nat (indices grid_scan ! (2 * rows (s_ctrlPts grid_out) + 1) - 1) = 5"
    by (simp add: grid_scan_def grid_out_def)
  then show ?thesis
    using b r surface_grid_u_fastest [of dec_lib grid_scan grid_out 1 2]
    by (simp add: grid_scan_def)
qed

section \<open>The token loop on a line\<close>


lemma tokens_of_Nil_iff: "tokens_of l = [] \<longleftrightarrow> list_all isspace l"
  by (subst tokens_of.simps) (auto simp: dropWhile_eq_Nil_conv list_all_iff)

lemma tokens_of_step:
  "dropWhile isspace l \<noteq> [] \<Longrightarrow>
   tokens_of l = takeWhile (\<lambda>c. \<not> isspace c) (dropWhile isspace l)
                 # tokens_of (dropWhile (\<lambda>c. \<not> isspace c) (dropWhile isspace l))"
  by (subst tokens_of.simps) simp

lemma extract_string_failed:
  "failbit s \<or> eofbit s \<or> list_all isspace (unread s) \<Longrightarrow>
   failbit (fst (extract_string s old)) \<and> snd (extract_string s old) = old"
  by (auto simp: extract_string_def sentry_def good_def Let_def dropWhile_eq_Nil_conv list_all_iff)

lemma extract_string_end:
  "\<not> failbit s \<Longrightarrow> eofbit s \<longrightarrow> unread s = [] \<Longrightarrow> list_all isspace (unread s) \<Longrightarrow>
   fst (extract_string s old) = \<lparr>unread = [], eofbit = True, failbit = True\<rparr>"
  by (cases s) (auto simp: extract_string_def sentry_def good_def Let_def dropWhile_eq_Nil_conv list_all_iff)

lemma extract_string_next:
  assumes "\<not> failbit s" "eofbit s \<longrightarrow> unread s = []" "tokens_of (unread s) = t # ts"
  shows "\<exists>s'. extract_string s old = (s', t) \<and> \<not> failbit s' \<and> (eofbit s' \<longrightarrow> unread s' = [])
            \<and> tokens_of (unread s') = ts"
proof -
  have ne: "dropWhile isspace (unread s) \<noteq> []"
    using assms(3) by (subst (asm) tokens_of.simps) (auto split: if_splits)
  then have "unread s \<noteq> []"
    by auto
  then have g: "good s"
    using assms by (simp add: good_def)
  have "t # ts = takeWhile (\<lambda>c. \<not> isspace c) (dropWhile isspace (unread s))
                # tokens_of (dropWhile (\<lambda>c. \<not> isspace c) (dropWhile isspace (unread s)))"
    using assms(3) tokens_of_step [OF ne] by simp
  then have t: "t = takeWhile (\<lambda>c. \<not> isspace c) (dropWhile isspace (unread s))"
    and ts: "ts = tokens_of (dropWhile (\<lambda>c. \<not> isspace c) (dropWhile isspace (unread s)))"
    by simp_all
  show ?thesis
    using g ne t ts by (simp add: extract_string_def sentry_def Let_def)
qed

lemma lexer_independentD:
  assumes "lexer_independent upd"
  shows "upd v (st\<lparr>ssline := c, token := d\<rparr>) = (upd v st)\<lparr>ssline := c, token := d\<rparr>"
    and "ifile (upd v st) = ifile st" and "sline (upd v st) = sline st"
    and "ssline (upd v st) = ssline st" and "token (upd v st) = token st"
proof -
  have e: "upd v (x\<lparr>ifile := a, sline := b, ssline := c, token := d\<rparr>) =
           (upd v x)\<lparr>ifile := a, sline := b, ssline := c, token := d\<rparr>" for a b c d x
    using assms by (simp add: lexer_independent_def)
  have same: "upd v st = (upd v st)\<lparr>ifile := ifile st, sline := sline st, ssline := ssline st,
                                      token := token st\<rparr>"
    using e [where x = st and a = "ifile st" and b = "sline st" and c = "ssline st"
               and d = "token st"]
    by simp
  show f: "ifile (upd v st) = ifile st"
    using arg_cong [OF same, of ifile] by simp
  show l: "sline (upd v st) = sline st"
    using arg_cong [OF same, of sline] by simp
  show "ssline (upd v st) = ssline st"
    using arg_cong [OF same, of ssline] by simp
  show "token (upd v st) = token st"
    using arg_cong [OF same, of token] by simp
  have "upd v (st\<lparr>ssline := c, token := d\<rparr>) =
        (upd v st)\<lparr>ifile := ifile st, sline := sline st, ssline := c, token := d\<rparr>"
    using e [where x = st and a = "ifile st" and b = "sline st" and c = c and d = d]
    by simp
  also have "\<dots> = (upd v st)\<lparr>ifile := ifile (upd v st), sline := sline (upd v st),
                               ssline := c, token := d\<rparr>"
    by (simp only: f l)
  also have "\<dots> = (upd v st)\<lparr>ssline := c, token := d\<rparr>"
    by simp
  finally show "upd v (st\<lparr>ssline := c, token := d\<rparr>) = (upd v st)\<lparr>ssline := c, token := d\<rparr>" .
qed


lemma foldl_lexer_independent:
  assumes "lexer_independent upd"
  shows "foldl (\<lambda>a t. upd (f t) a) (st\<lparr>ssline := c, token := d\<rparr>) ts =
         (foldl (\<lambda>a t. upd (f t) a) st ts)\<lparr>ssline := c, token := d\<rparr>"
  by (induction ts arbitrary: st) (simp_all add: lexer_independentD(1) [OF assms])

lemma foldl_lexer_fields:
  assumes "lexer_independent upd"
  shows "ifile (foldl (\<lambda>a t. upd (f t) a) st ts) = ifile st"
    and "sline (foldl (\<lambda>a t. upd (f t) a) st ts) = sline st"
  by (induction ts arbitrary: st) (simp_all add: lexer_independentD [OF assms])

text \<open>Reading the leading tokens \<open>ts\<close> of the line, none of them the continuation marker,
  each of them a number that the destination stores.\<close>

lemma token_loop_tokens:
  assumes "lexer_independent upd"
    and "\<forall>t\<in>set ts. t \<noteq> backslash \<and> (\<exists>v. s t = Some v \<and> (\<forall>x. p v x = Returns (upd v x)))"
    and "\<not> failbit (ssline st)" "eofbit (ssline st) \<longrightarrow> unread (ssline st) = []"
    and "tokens_of (unread (ssline st)) = ts @ rest"
  shows "\<exists>ss. token_loop s p st =
              token_loop s p
                ((foldl (\<lambda>a t. upd (the (s t)) a) st ts)
                   \<lparr>ssline := ss, token := last (token st # ts)\<rparr>)
            \<and> \<not> failbit ss \<and> (eofbit ss \<longrightarrow> unread ss = []) \<and> tokens_of (unread ss) = rest"
  using assms(2-)
proof (induction ts arbitrary: st)
  case Nil
  have "st = st\<lparr>ssline := ssline st, token := token st\<rparr>"
    by simp
  then have "token_loop s p st = token_loop s p (st\<lparr>ssline := ssline st, token := token st\<rparr>)"
    by simp
  with Nil show ?case
    by (intro exI [of _ "ssline st"]) simp
next
  case (Cons t ts)
  from Cons.prems obtain v where
    v: "t \<noteq> backslash" "s t = Some v" "\<And>x. p v x = Returns (upd v x)"
    by auto
  from extract_string_next [OF Cons.prems(2,3), of t "ts @ rest" "token st"] Cons.prems(4)
  obtain s' where s': "extract_string (ssline st) (token st) = (s', t)" "\<not> failbit s'"
    "eofbit s' \<longrightarrow> unread s' = []" "tokens_of (unread s') = ts @ rest"
    by auto
  let ?st1 = "upd v (st\<lparr>ssline := s', token := t\<rparr>)"
  have st1: "?st1 = (upd v st)\<lparr>ssline := s', token := t\<rparr>"
    by (rule lexer_independentD(1) [OF assms(1)])
  have step: "token_loop s p st = token_loop s p ?st1"
    using s' v by (subst token_loop_push) simp_all
  have "\<exists>ss. token_loop s p ?st1 =
              token_loop s p
                ((foldl (\<lambda>a t. upd (the (s t)) a) ?st1 ts)
                   \<lparr>ssline := ss, token := last (token ?st1 # ts)\<rparr>)
            \<and> \<not> failbit ss \<and> (eofbit ss \<longrightarrow> unread ss = []) \<and> tokens_of (unread ss) = rest"
    using Cons.prems(1) s' by (intro Cons.IH) (simp_all add: st1)
  then obtain ss where ss: "token_loop s p ?st1 =
              token_loop s p
                ((foldl (\<lambda>a t. upd (the (s t)) a) ?st1 ts)
                   \<lparr>ssline := ss, token := last (token ?st1 # ts)\<rparr>)"
     "\<not> failbit ss" "eofbit ss \<longrightarrow> unread ss = []" "tokens_of (unread ss) = rest"
    by blast
  have "(foldl (\<lambda>a t. upd (the (s t)) a) ?st1 ts)
          \<lparr>ssline := ss, token := last (token ?st1 # ts)\<rparr>
      = (foldl (\<lambda>a t. upd (the (s t)) a) st (t # ts))
          \<lparr>ssline := ss, token := last (token st # t # ts)\<rparr>"
    using v(2) by (simp add: st1 foldl_lexer_independent [OF assms(1)])
  with step ss show ?case
    by (intro exI [of _ ss]) simp
qed


lemma lexer_update_order:
  "x\<lparr>ssline := c, token := d, ifile := a, sline := b\<rparr> =
   x\<lparr>ifile := a, sline := b, ssline := c, token := d\<rparr>"
  by (cases x) simp

lemma foldl_lexer_update:
  assumes "lexer_independent upd"
  shows "foldl (\<lambda>a t. upd (f t) a) (st\<lparr>ifile := a, sline := b, ssline := c, token := d\<rparr>) ts =
         (foldl (\<lambda>a t. upd (f t) a) st ts)\<lparr>ifile := a, sline := b, ssline := c, token := d\<rparr>"
  using assms by (induction ts arbitrary: st) (simp_all add: lexer_independent_def)

text \<open>A line without a continuation marker: the loop ends at the end of the line.\<close>

lemma token_loop_line:
  assumes "lexer_independent upd"
    and "\<forall>t\<in>set ts. t \<noteq> backslash \<and> (\<exists>v. s t = Some v \<and> (\<forall>x. p v x = Returns (upd v x)))"
    and "\<not> failbit (ssline st)" "eofbit (ssline st) \<longrightarrow> unread (ssline st) = []"
    and "tokens_of (unread (ssline st)) = ts"
  shows "token_loop s p st =
           Some (Returns ((foldl (\<lambda>a t. upd (the (s t)) a) st ts)
                   \<lparr>ssline := \<lparr>unread = [], eofbit = True, failbit = True\<rparr>,
                    token := last (token st # ts)\<rparr>))"
proof -
  from token_loop_tokens [OF assms(1-4), of "[]"] assms(5)
  obtain ss where ss: "token_loop s p st =
              token_loop s p
                ((foldl (\<lambda>a t. upd (the (s t)) a) st ts)
                   \<lparr>ssline := ss, token := last (token st # ts)\<rparr>)"
    "\<not> failbit ss" "eofbit ss \<longrightarrow> unread ss = []" "tokens_of (unread ss) = []"
    by auto
  have sp: "list_all isspace (unread ss)"
    using ss(4) by (simp add: tokens_of_Nil_iff)
  have "failbit (fst (extract_string ss old)) \<and> snd (extract_string ss old) = old
        \<and> fst (extract_string ss old) = \<lparr>unread = [], eofbit = True, failbit = True\<rparr>" for old
    using extract_string_failed [of ss old] extract_string_end [OF ss(2,3) sp, of old] sp
    by simp
  then show ?thesis
    unfolding ss(1) by (subst token_loop_stop) simp_all
qed

text \<open>A line with a continuation marker: the loop goes on with the next line of the
  file; what follows the marker on its line is dropped.\<close>

lemma token_loop_marker:
  assumes "lexer_independent upd"
    and "\<forall>t\<in>set ts. t \<noteq> backslash \<and> (\<exists>v. s t = Some v \<and> (\<forall>x. p v x = Returns (upd v x)))"
    and "\<not> failbit (ssline st)" "eofbit (ssline st) \<longrightarrow> unread (ssline st) = []"
    and "tokens_of (unread (ssline st)) = ts @ backslash # rest"
  shows "token_loop s p st =
           token_loop s p
             ((foldl (\<lambda>a t. upd (the (s t)) a) st ts)
                \<lparr>ifile := fst (getline (ifile st) (sline st)),
                 sline := snd (getline (ifile st) (sline st)),
                 ssline := \<lparr>unread = snd (getline (ifile st) (sline st)),
                            eofbit = False, failbit = False\<rparr>,
                 token := backslash\<rparr>)"
proof -
  let ?F = "foldl (\<lambda>a t. upd (the (s t)) a) st ts"
  from token_loop_tokens [OF assms(1-4), of "backslash # rest"] assms(5)
  obtain ss where ss: "token_loop s p st =
              token_loop s p (?F\<lparr>ssline := ss, token := last (token st # ts)\<rparr>)"
    "\<not> failbit ss" "eofbit ss \<longrightarrow> unread ss = []" "tokens_of (unread ss) = backslash # rest"
    by auto
  from extract_string_next [OF ss(2-4), of "last (token st # ts)"]
  obtain s' where s': "extract_string ss (last (token st # ts)) = (s', backslash)" "\<not> failbit s'"
    by auto
  have c: "str (clear s') l = \<lparr>unread = l, eofbit = False, failbit = False\<rparr>" for l
    by (cases s') (simp add: str_def clear_def)
  show ?thesis
    unfolding ss(1) using s'
    by (subst token_loop_continue)
       (simp_all add: foldl_lexer_fields [OF assms(1)] c lexer_update_order)
qed

lemma take_line_append:
  "newline \<notin> set l \<Longrightarrow> take_line (l @ newline # rest) = (l, rest, False)"
  by (induction l) auto

lemma getline_line:
  "newline \<notin> set l \<Longrightarrow>
   getline \<lparr>unread = l @ newline # rest, eofbit = False, failbit = False\<rparr> old =
     (\<lparr>unread = rest, eofbit = False, failbit = False\<rparr>, l)"
  by (simp add: getline_def good_def take_line_append)


lemma same_but_line_lexer:
  "same_but_line a
     (x\<lparr>ifile := f, sline := l, ssline := c, token := d\<rparr>\<lparr>ifile := f', ssline := c'\<rparr>) =
   same_but_line a (x\<lparr>ifile := f', ssline := c'\<rparr>)"
  by (cases x) (simp add: same_but_line_def)

lemma same_but_line_end:
  "ifile x = f \<Longrightarrow> same_but_line (x\<lparr>ssline := c, token := d\<rparr>) (x\<lparr>ifile := f, ssline := c\<rparr>)"
  by (cases x) (auto simp: same_but_line_def)

lemma same_but_line_lexer':
  "same_but_line a (x\<lparr>sline := l, token := d, ifile := f', ssline := c'\<rparr>) =
   same_but_line a (x\<lparr>ifile := f', ssline := c'\<rparr>)"
  by (cases x) (simp add: same_but_line_def)

text \<open>A list broken over the lines \<open>ms\<close> and \<open>lf\<close>: the loop stores the tokens of all the
  lines, in their order, and leaves the file after the last of them.\<close>

lemma token_loop_broken_lines:
  assumes "lexer_independent upd"
    and "broken_lines ms tss lf tf"
    and "\<forall>t\<in>set (concat tss @ tf).
           t \<noteq> backslash \<and> (\<exists>v. s t = Some v \<and> (\<forall>x. p v x = Returns (upd v x)))"
    and "ssline st = \<lparr>unread = hd (ms @ [lf]), eofbit = False, failbit = False\<rparr>"
    and "ifile st = \<lparr>unread = concat (map (\<lambda>l. l @ [newline]) (tl (ms @ [lf]))) @ rest,
                     eofbit = False, failbit = False\<rparr>"
  shows "\<exists>a. token_loop s p st = Some (Returns a)
           \<and> same_but_line a
               ((foldl (\<lambda>a t. upd (the (s t)) a) st (concat tss @ tf))
                  \<lparr>ifile := \<lparr>unread = rest, eofbit = False, failbit = False\<rparr>,
                   ssline := \<lparr>unread = [], eofbit = True, failbit = True\<rparr>\<rparr>)"
  using assms(2-)
proof (induction ms arbitrary: tss st)
  case Nil
  then have tss: "tss = []" and lf: "tokens_of lf = tf"
    by (simp_all add: broken_lines_def)
  have "token_loop s p st =
           Some (Returns ((foldl (\<lambda>a t. upd (the (s t)) a) st tf)
                   \<lparr>ssline := \<lparr>unread = [], eofbit = True, failbit = True\<rparr>,
                    token := last (token st # tf)\<rparr>))"
    using Nil.prems lf tss by (intro token_loop_line [OF assms(1)]) simp_all
  moreover have "ifile (foldl (\<lambda>a t. upd (the (s t)) a) st tf)
                   = \<lparr>unread = rest, eofbit = False, failbit = False\<rparr>"
    using Nil.prems(4) by (simp add: foldl_lexer_fields [OF assms(1)])
  ultimately show ?case
    using same_but_line_end tss by fastforce
next
  case (Cons m ms)
  from Cons.prems(1) obtain ts tss' where tss: "tss = ts # tss'"
    and m: "tokens_of m = ts @ [backslash]"
    and rest: "broken_lines ms tss' lf tf"
    by (auto simp: broken_lines_def list_all2_Cons1)
  define n where "n = hd (ms @ [lf])"
  have n: "ms @ [lf] = n # tl (ms @ [lf])" "newline \<notin> set n"
    using rest by (cases ms, simp_all add: n_def broken_lines_def)
                  (cases ms, auto simp: n_def broken_lines_def list_all2_Cons1)
  let ?F = "foldl (\<lambda>a t. upd (the (s t)) a) st ts"
  let ?R = "\<lparr>unread = concat (map (\<lambda>l. l @ [newline]) (tl (ms @ [lf]))) @ rest,
             eofbit = False, failbit = False\<rparr>"
  let ?st2 = "?F\<lparr>ifile := ?R, sline := n, ssline := \<lparr>unread = n, eofbit = False, failbit = False\<rparr>,
                 token := backslash\<rparr>"
  have c: "concat (map (\<lambda>l. l @ [newline]) (ms @ [lf])) =
           n @ newline # concat (map (\<lambda>l. l @ [newline]) (tl (ms @ [lf])))"
    by (subst n(1)) simp
  have fl: "ifile st = \<lparr>unread = n @ newline # (concat (map (\<lambda>l. l @ [newline]) (tl (ms @ [lf]))) @ rest),
                     eofbit = False, failbit = False\<rparr>"
    using Cons.prems(4) c by simp
  have g: "getline (ifile st) (sline st) = (?R, n)"
    unfolding fl by (rule getline_line [OF n(2)])
  have vt: "\<forall>t\<in>set ts. t \<noteq> backslash \<and> (\<exists>v. s t = Some v \<and> (\<forall>x. p v x = Returns (upd v x)))"
    using Cons.prems(2) tss by simp
  have ss: "\<not> failbit (ssline st)" "eofbit (ssline st) \<longrightarrow> unread (ssline st) = []"
    "tokens_of (unread (ssline st)) = ts @ backslash # []"
    using Cons.prems(3) m by simp_all
  have step: "token_loop s p st = token_loop s p ?st2"
    using token_loop_marker [OF assms(1) vt ss] by (simp only: g fst_conv snd_conv)
  have "\<exists>a. token_loop s p ?st2 = Some (Returns a)
           \<and> same_but_line a
               ((foldl (\<lambda>a t. upd (the (s t)) a) ?st2 (concat tss' @ tf))
                  \<lparr>ifile := \<lparr>unread = rest, eofbit = False, failbit = False\<rparr>,
                   ssline := \<lparr>unread = [], eofbit = True, failbit = True\<rparr>\<rparr>)"
    using Cons.prems(2) tss by (intro Cons.IH [OF rest]) (simp_all add: n_def)
  then show ?case
    unfolding step tss
    by (simp add: foldl_lexer_update [OF assms(1)] same_but_line_lexer same_but_line_lexer')
qed


section \<open>Continuation lines\<close>

lemma push_index_independent:
  "lexer_independent (\<lambda>v x. x\<lparr>indices := indices x @ [the (float_to_int lib v)]\<rparr>)"
  by (simp add: lexer_independent_def)

lemma push_knot_independent:
  "lexer_independent (\<lambda>v x. x\<lparr>temp_knots := temp_knots x @ [float_to_T lib v]\<rparr>)"
  by (simp add: lexer_independent_def)

lemma push_uknot_independent:
  "lexer_independent (\<lambda>v x. x\<lparr>temp_uknots := temp_uknots x @ [float_to_T lib v]\<rparr>)"
  by (simp add: lexer_independent_def)

lemma push_vknot_independent:
  "lexer_independent (\<lambda>v x. x\<lparr>temp_vknots := temp_vknots x @ [float_to_T lib v]\<rparr>)"
  by (simp add: lexer_independent_def)

lemma foldl_indices:
  "foldl (\<lambda>a t. a\<lparr>indices := indices a @ [g t]\<rparr>) st ts = st\<lparr>indices := indices st @ map g ts\<rparr>"
  by (induction ts arbitrary: st) simp_all

lemma foldl_temp_knots:
  "foldl (\<lambda>a t. a\<lparr>temp_knots := temp_knots a @ [g t]\<rparr>) st ts =
   st\<lparr>temp_knots := temp_knots st @ map g ts\<rparr>"
  by (induction ts arbitrary: st) simp_all

lemma foldl_temp_uknots:
  "foldl (\<lambda>a t. a\<lparr>temp_uknots := temp_uknots a @ [g t]\<rparr>) st ts =
   st\<lparr>temp_uknots := temp_uknots st @ map g ts\<rparr>"
  by (induction ts arbitrary: st) simp_all

lemma foldl_temp_vknots:
  "foldl (\<lambda>a t. a\<lparr>temp_vknots := temp_vknots a @ [g t]\<rparr>) st ts =
   st\<lparr>temp_vknots := temp_vknots st @ map g ts\<rparr>"
  by (induction ts arbitrary: st) simp_all

lemma index_tokensD:
  "index_tokens lib ts \<Longrightarrow>
   \<forall>t\<in>set ts. t \<noteq> backslash \<and>
     (\<exists>v. stof lib t = Some v \<and>
        (\<forall>x. push_index lib v x = Returns (x\<lparr>indices := indices x @ [the (float_to_int lib v)]\<rparr>)))"
  by (fastforce simp: index_tokens_def push_index_def)

lemma knot_tokensD:
  "knot_tokens lib ts \<Longrightarrow>
   \<forall>t\<in>set ts. t \<noteq> backslash \<and>
     (\<exists>v. stof lib t = Some v \<and>
        (\<forall>x. push_knot lib v x = Returns (x\<lparr>temp_knots := temp_knots x @ [float_to_T lib v]\<rparr>)))"
  "knot_tokens lib ts \<Longrightarrow>
   \<forall>t\<in>set ts. t \<noteq> backslash \<and>
     (\<exists>v. stof lib t = Some v \<and>
        (\<forall>x. push_uknot lib v x = Returns (x\<lparr>temp_uknots := temp_uknots x @ [float_to_T lib v]\<rparr>)))"
  "knot_tokens lib ts \<Longrightarrow>
   \<forall>t\<in>set ts. t \<noteq> backslash \<and>
     (\<exists>v. stof lib t = Some v \<and>
        (\<forall>x. push_vknot lib v x = Returns (x\<lparr>temp_vknots := temp_vknots x @ [float_to_T lib v]\<rparr>)))"
  by (fastforce simp: knot_tokens_def push_knot_def push_uknot_def push_vknot_def)+

lemma foldl_lexer_token:
  assumes "lexer_independent upd"
  shows "token (foldl (\<lambda>a t. upd (f t) a) st ts) = token st"
  by (induction ts arbitrary: st) (simp_all add: lexer_independentD [OF assms])

lemma foldl_lexer_at:
  assumes "lexer_independent upd"
  shows "foldl (\<lambda>a t. upd (f t) a) (x\<lparr>ifile := a, ssline := c\<rparr>) ts =
         (foldl (\<lambda>a t. upd (f t) a) x ts)\<lparr>ifile := a, ssline := c\<rparr>"
proof -
  let ?F = "foldl (\<lambda>a t. upd (f t) a) x ts"
  have "x\<lparr>ifile := a, ssline := c\<rparr> = x\<lparr>ifile := a, sline := sline x, ssline := c, token := token x\<rparr>"
    by (cases x) simp
  then have "foldl (\<lambda>a t. upd (f t) a) (x\<lparr>ifile := a, ssline := c\<rparr>) ts =
             ?F\<lparr>ifile := a, sline := sline x, ssline := c, token := token x\<rparr>"
    by (simp only: foldl_lexer_update [OF assms])
  also have "\<dots> = ?F\<lparr>ifile := a, sline := sline ?F, ssline := c, token := token ?F\<rparr>"
    by (simp only: foldl_lexer_fields [OF assms] foldl_lexer_token [OF assms])
  also have "\<dots> = ?F\<lparr>ifile := a, ssline := c\<rparr>"
    by (cases ?F) simp
  finally show ?thesis .
qed

text \<open>The token loop on a list broken over lines and on the same list on one line, for a
  destination that leaves the streams alone.\<close>

lemma broken_and_joined:
  assumes "lexer_independent upd"
    and "broken_lines ms tss lf tf" and "tokens_of joined = concat tss @ tf"
    and "\<forall>t\<in>set (concat tss @ tf).
           t \<noteq> backslash \<and> (\<exists>v. s t = Some v \<and> (\<forall>x. p v x = Returns (upd v x)))"
  shows "\<exists>a b. token_loop s p (at_lines st (ms @ [lf]) rest) = Some (Returns a)
           \<and> token_loop s p (at_lines st [joined] rest) = Some (Returns b)
           \<and> same_but_line a b
           \<and> same_but_line a
               ((foldl (\<lambda>a t. upd (the (s t)) a) st (concat tss @ tf))
                  \<lparr>ifile := \<lparr>unread = rest, eofbit = False, failbit = False\<rparr>,
                   ssline := \<lparr>unread = [], eofbit = True, failbit = True\<rparr>\<rparr>)"
proof -
  let ?E = "\<lparr>unread = [], eofbit = True, failbit = True\<rparr>"
  let ?R = "\<lparr>unread = rest, eofbit = False, failbit = False\<rparr>"
  let ?F = "\<lambda>x. foldl (\<lambda>a t. upd (the (s t)) a) x (concat tss @ tf)"
  have F: "?F (at_lines st ls rest)\<lparr>ifile := ?R, ssline := ?E\<rparr> = (?F st)\<lparr>ifile := ?R, ssline := ?E\<rparr>"
    for ls
    unfolding at_lines_def foldl_lexer_at [OF assms(1)] by simp
  from token_loop_broken_lines [OF assms(1,2,4), of "at_lines st (ms @ [lf]) rest" rest]
  obtain a where a: "token_loop s p (at_lines st (ms @ [lf]) rest) = Some (Returns a)"
    "same_but_line a ((?F st)\<lparr>ifile := ?R, ssline := ?E\<rparr>)"
    unfolding F by (auto simp: at_lines_def)
  have b: "token_loop s p (at_lines st [joined] rest) =
             Some (Returns ((?F (at_lines st [joined] rest))
                   \<lparr>ssline := ?E, token := last (token (at_lines st [joined] rest) # concat tss @ tf)\<rparr>))"
    using assms(3,4) by (intro token_loop_line [OF assms(1)]) (simp_all add: at_lines_def)
  have "same_but_line ((?F (at_lines st [joined] rest))\<lparr>ssline := ?E, token := d\<rparr>)
          ((?F st)\<lparr>ifile := ?R, ssline := ?E\<rparr>)" for d
    unfolding at_lines_def foldl_lexer_at [OF assms(1)]
    by (cases "?F st") (simp add: same_but_line_def)
  with a b show ?thesis
    by (auto simp: same_but_line_def)
qed


lemma same_but_line_data:
  "same_but_line a b \<Longrightarrow> indices a = indices b"
  "same_but_line c d \<Longrightarrow> temp_knots c = temp_knots d"
  "same_but_line e f \<Longrightarrow> temp_uknots e = temp_uknots f"
  "same_but_line e f \<Longrightarrow> temp_vknots e = temp_vknots f"
  unfolding same_but_line_def
  by (drule arg_cong [where f = indices], simp)
     (drule arg_cong [where f = temp_knots], simp,
      drule arg_cong [where f = temp_uknots], simp,
      drule arg_cong [where f = temp_vknots], simp)

text \<open>
  Claim C5: let a list of numbers be written over several physical lines, each but the
  last ending in the continuation marker, and let \<open>joined\<close> be one line with the same
  tokens. The token loop of the readers, entered on the broken lines and entered on
  \<open>joined\<close>, returns in both cases, with the same file position and the same data but
  for the variables \<^verbatim>\<open>sline\<close> and \<^verbatim>\<open>token\<close>; the values stored are those of all the
  tokens, in their order. This holds for the index list of \<^verbatim>\<open>curv\<close> and \<^verbatim>\<open>surf\<close>, for
  the knots of \<^verbatim>\<open>parm u\<close> in a curve, and for the knots of \<^verbatim>\<open>parm u\<close> and \<^verbatim>\<open>parm v\<close>
  in a surface.
\<close>

theorem continuation_reads_as_one_line:
  assumes "broken_lines ms tss lf tf" and "tokens_of joined = concat tss @ tf"
  shows
    "(index_tokens lib (concat tss @ tf) \<longrightarrow>
       (\<exists>a b. token_loop (stof lib) (push_index lib) (at_lines st (ms @ [lf]) rest) = Some (Returns a)
          \<and> token_loop (stof lib) (push_index lib) (at_lines st [joined] rest) = Some (Returns b)
          \<and> same_but_line a b
          \<and> indices a =
              indices st @ map (\<lambda>v. the (float_to_int lib v)) (stof_values lib (concat tss @ tf))))
     \<and> (knot_tokens lib (concat tss @ tf) \<longrightarrow>
       (\<exists>a b. token_loop (stof lib) (push_knot lib) (at_lines c (ms @ [lf]) rest) = Some (Returns a)
          \<and> token_loop (stof lib) (push_knot lib) (at_lines c [joined] rest) = Some (Returns b)
          \<and> same_but_line a b
          \<and> temp_knots a =
              temp_knots c @ map (float_to_T lib) (stof_values lib (concat tss @ tf))))
     \<and> (knot_tokens lib (concat tss @ tf) \<longrightarrow>
       (\<exists>a b. token_loop (stof lib) (push_uknot lib) (at_lines s (ms @ [lf]) rest) = Some (Returns a)
          \<and> token_loop (stof lib) (push_uknot lib) (at_lines s [joined] rest) = Some (Returns b)
          \<and> same_but_line a b
          \<and> temp_uknots a =
              temp_uknots s @ map (float_to_T lib) (stof_values lib (concat tss @ tf))))
     \<and> (knot_tokens lib (concat tss @ tf) \<longrightarrow>
       (\<exists>a b. token_loop (stof lib) (push_vknot lib) (at_lines s (ms @ [lf]) rest) = Some (Returns a)
          \<and> token_loop (stof lib) (push_vknot lib) (at_lines s [joined] rest) = Some (Returns b)
          \<and> same_but_line a b
          \<and> temp_vknots a =
              temp_vknots s @ map (float_to_T lib) (stof_values lib (concat tss @ tf))))"
proof (intro conjI impI)
  assume "index_tokens lib (concat tss @ tf)"
  from broken_and_joined [OF push_index_independent assms index_tokensD [OF this], of st rest]
  obtain a b where ab:
    "token_loop (stof lib) (push_index lib) (at_lines st (ms @ [lf]) rest) = Some (Returns a)"
    "token_loop (stof lib) (push_index lib) (at_lines st [joined] rest) = Some (Returns b)"
    "same_but_line a b"
    "same_but_line a
       ((foldl (\<lambda>a t. a\<lparr>indices := indices a @ [the (float_to_int lib (the (stof lib t)))]\<rparr>)
          st (concat tss @ tf))
          \<lparr>ifile := \<lparr>unread = rest, eofbit = False, failbit = False\<rparr>,
           ssline := \<lparr>unread = [], eofbit = True, failbit = True\<rparr>\<rparr>)"
    by blast
  have d: "indices a =
      indices st @ map (\<lambda>v. the (float_to_int lib v)) (stof_values lib (concat tss @ tf))"
    using same_but_line_data(1) [OF ab(4)] by (simp add: foldl_indices stof_values_def comp_def)
  from ab(1-3) d show "\<exists>a b. token_loop (stof lib) (push_index lib) (at_lines st (ms @ [lf]) rest)
            = Some (Returns a)
          \<and> token_loop (stof lib) (push_index lib) (at_lines st [joined] rest) = Some (Returns b)
          \<and> same_but_line a b
          \<and> indices a =
              indices st @ map (\<lambda>v. the (float_to_int lib v)) (stof_values lib (concat tss @ tf))"
    by blast
next
  assume "knot_tokens lib (concat tss @ tf)"
  from broken_and_joined [OF push_knot_independent assms knot_tokensD(1) [OF this], of c rest]
  obtain a b where ab:
    "token_loop (stof lib) (push_knot lib) (at_lines c (ms @ [lf]) rest) = Some (Returns a)"
    "token_loop (stof lib) (push_knot lib) (at_lines c [joined] rest) = Some (Returns b)"
    "same_but_line a b"
    "same_but_line a
       ((foldl (\<lambda>a t. a\<lparr>temp_knots := temp_knots a @ [float_to_T lib (the (stof lib t))]\<rparr>)
          c (concat tss @ tf))
          \<lparr>ifile := \<lparr>unread = rest, eofbit = False, failbit = False\<rparr>,
           ssline := \<lparr>unread = [], eofbit = True, failbit = True\<rparr>\<rparr>)"
    by blast
  have d: "temp_knots a =
      temp_knots c @ map (float_to_T lib) (stof_values lib (concat tss @ tf))"
    using same_but_line_data(2) [OF ab(4)] by (simp add: foldl_temp_knots stof_values_def comp_def)
  from ab(1-3) d show "\<exists>a b. token_loop (stof lib) (push_knot lib) (at_lines c (ms @ [lf]) rest)
            = Some (Returns a)
          \<and> token_loop (stof lib) (push_knot lib) (at_lines c [joined] rest) = Some (Returns b)
          \<and> same_but_line a b
          \<and> temp_knots a =
              temp_knots c @ map (float_to_T lib) (stof_values lib (concat tss @ tf))"
    by blast
next
  assume "knot_tokens lib (concat tss @ tf)"
  from broken_and_joined [OF push_uknot_independent assms knot_tokensD(2) [OF this], of s rest]
  obtain a b where ab:
    "token_loop (stof lib) (push_uknot lib) (at_lines s (ms @ [lf]) rest) = Some (Returns a)"
    "token_loop (stof lib) (push_uknot lib) (at_lines s [joined] rest) = Some (Returns b)"
    "same_but_line a b"
    "same_but_line a
       ((foldl (\<lambda>a t. a\<lparr>temp_uknots := temp_uknots a @ [float_to_T lib (the (stof lib t))]\<rparr>)
          s (concat tss @ tf))
          \<lparr>ifile := \<lparr>unread = rest, eofbit = False, failbit = False\<rparr>,
           ssline := \<lparr>unread = [], eofbit = True, failbit = True\<rparr>\<rparr>)"
    by blast
  have d: "temp_uknots a =
      temp_uknots s @ map (float_to_T lib) (stof_values lib (concat tss @ tf))"
    using same_but_line_data(3) [OF ab(4)] by (simp add: foldl_temp_uknots stof_values_def comp_def)
  from ab(1-3) d show "\<exists>a b. token_loop (stof lib) (push_uknot lib) (at_lines s (ms @ [lf]) rest)
            = Some (Returns a)
          \<and> token_loop (stof lib) (push_uknot lib) (at_lines s [joined] rest) = Some (Returns b)
          \<and> same_but_line a b
          \<and> temp_uknots a =
              temp_uknots s @ map (float_to_T lib) (stof_values lib (concat tss @ tf))"
    by blast
next
  assume "knot_tokens lib (concat tss @ tf)"
  from broken_and_joined [OF push_vknot_independent assms knot_tokensD(3) [OF this], of s rest]
  obtain a b where ab:
    "token_loop (stof lib) (push_vknot lib) (at_lines s (ms @ [lf]) rest) = Some (Returns a)"
    "token_loop (stof lib) (push_vknot lib) (at_lines s [joined] rest) = Some (Returns b)"
    "same_but_line a b"
    "same_but_line a
       ((foldl (\<lambda>a t. a\<lparr>temp_vknots := temp_vknots a @ [float_to_T lib (the (stof lib t))]\<rparr>)
          s (concat tss @ tf))
          \<lparr>ifile := \<lparr>unread = rest, eofbit = False, failbit = False\<rparr>,
           ssline := \<lparr>unread = [], eofbit = True, failbit = True\<rparr>\<rparr>)"
    by blast
  have d: "temp_vknots a =
      temp_vknots s @ map (float_to_T lib) (stof_values lib (concat tss @ tf))"
    using same_but_line_data(4) [OF ab(4)] by (simp add: foldl_temp_vknots stof_values_def comp_def)
  from ab(1-3) d show "\<exists>a b. token_loop (stof lib) (push_vknot lib) (at_lines s (ms @ [lf]) rest)
            = Some (Returns a)
          \<and> token_loop (stof lib) (push_vknot lib) (at_lines s [joined] rest) = Some (Returns b)
          \<and> same_but_line a b
          \<and> temp_vknots a =
              temp_vknots s @ map (float_to_T lib) (stof_values lib (concat tss @ tf))"
    by blast
qed


theorem continuation_reads_as_one_line_witness:
  "broken_lines [''0 0 '' @ backslash] [[''0'', ''0'']] ''1 1'' [''1'', ''1'']
   \<and> tokens_of ''0 0 1 1'' = concat [[''0'', ''0'']] @ [''1'', ''1'']
   \<and> knot_tokens dec_lib (concat [[''0'', ''0'']] @ [''1'', ''1''])
   \<and> (\<exists>a b. token_loop (stof dec_lib) (push_knot dec_lib)
                (at_lines (curve_init unseen [] 0 False) ([''0 0 '' @ backslash] @ [''1 1'']) ''end'')
              = Some (Returns a)
          \<and> token_loop (stof dec_lib) (push_knot dec_lib)
                (at_lines (curve_init unseen [] 0 False) [''0 0 1 1''] ''end'')
              = Some (Returns b)
          \<and> same_but_line a b
          \<and> temp_knots a = [0, 0, 1, 1])"
proof -
  have h1: "broken_lines [''0 0 '' @ backslash] [[''0'', ''0'']] ''1 1'' [''1'', ''1'']"
    by (simp add: broken_lines_def tokens_of.simps isspace_def backslash_def newline_def)
  have h2: "tokens_of ''0 0 1 1'' = concat [[''0'', ''0'']] @ [''1'', ''1'']"
    by (simp add: tokens_of.simps isspace_def)
  have h3: "knot_tokens dec_lib (concat [[''0'', ''0'']] @ [''1'', ''1''])"
    by (simp add: knot_tokens_def backslash_def dec_eval)
  have v: "map (float_to_T dec_lib) (stof_values dec_lib (concat [[''0'', ''0'']] @ [''1'', ''1'']))
             = [0, 0, 1, 1]"
    by (simp add: stof_values_def dec_eval)
  note continuation_reads_as_one_line [OF h1 h2, where lib = dec_lib
        and c = "curve_init unseen [] 0 False" and rest = "''end''",
        THEN conjunct2, THEN conjunct1, THEN mp, OF h3]
  then obtain a b where ab:
    "token_loop (stof dec_lib) (push_knot dec_lib)
       (at_lines (curve_init unseen [] 0 False) ([''0 0 '' @ backslash] @ [''1 1'']) ''end'')
     = Some (Returns a)"
    "token_loop (stof dec_lib) (push_knot dec_lib)
       (at_lines (curve_init unseen [] 0 False) [''0 0 1 1''] ''end'')
     = Some (Returns b)"
    "same_but_line a b"
    "temp_knots a = temp_knots (curve_init unseen [] 0 False :: int curve_scan)
       @ map (float_to_T dec_lib) (stof_values dec_lib (concat [[''0'', ''0'']] @ [''1'', ''1'']))"
    by blast
  have "temp_knots a = [0, 0, 1, 1]"
    unfolding ab(4) v by (simp add: curve_init_def)
  with h1 h2 h3 ab(1-3) show ?thesis
    by blast
qed

section \<open>Reading back what was written: the lines\<close>
















section \<open>Reading back what was written: a curve\<close>




























section \<open>Reading back what was written: a surface\<close>

























section \<open>Writing, then reading\<close>

text \<open>The decimal library writes a number of one digit as a token that it reads back.\<close>

lemma put_digit:
  "put_nat 0 = ''0''" "put_nat 1 = ''1''" "put_nat 2 = ''2''" "put_nat 3 = ''3''"
  "put_nat 4 = ''4''" "put_nat 5 = ''5''" "put_nat (Suc 0) = ''1''"
  by (simp_all add: put_nat.simps char_of_def bit_Suc_0_iff)






lemma digits_reread:
  "reread_coord dec_lib 0 = 0" "reread_coord dec_lib 1 = 1" "reread_coord dec_lib 2 = 2"
  "reread_coord dec_lib 3 = 3" "reread_coord dec_lib 4 = 4" "reread_coord dec_lib 5 = 5"
  "reread_knot dec_lib 0 = 0" "reread_knot dec_lib 1 = 1" "reread_knot dec_lib 2 = 2"
  by (simp_all add: reread_coord_def reread_knot_def dec_lib_def dec_put_int_def put_digit
        dec_get_def dec_stof_def is_digit_def dec_val_def digit_val_def)




section \<open>The library with six digits and a float\<close>

























section \<open>Numbers that are read as they were written\<close>




section \<open>Objects that are written and read back\<close>








section \<open>Sample objects\<close>








lemma sample_knots_reread:
  "map (reread_knot dec_lib) [0, 0, 1, 1] = [0, 0, 1, 1]"
  "map (reread_knot dec_lib) [0, 0, 2, 2] = [0, 0, 2, 2]"
  by (simp_all add: digits_reread)


section \<open>What is read back of a saved object\<close>




end
